theory Spec2Isabelle
  imports Complex_Main "HOL-Library.Word"
begin

section \<open>The JavaScript values the program computes with\<close>

text \<open>
  \<^verbatim>\<open>game.js\<close> is a Node.js program. Its strings are sequences of UTF-16 code units and
  its numbers are IEEE 754 binary64 values. Both are modelled as the language defines
  them, since the program's input validation rests on \<^verbatim>\<open>parseInt\<close>, \<^verbatim>\<open>parseFloat\<close>,
  \<^verbatim>\<open>isNaN\<close> and \<^verbatim>\<open>Number.isInteger\<close> applied to what the user typed.
\<close>

subsection \<open>Strings\<close>

type_synonym jsstring = "16 word list"

text \<open>A string literal of the source: the code units of its (ASCII) characters.\<close>

definition js :: "string \<Rightarrow> jsstring" where
  "js s = map of_char s"

text \<open>
  White space and line terminators (ECMAScript \<^verbatim>\<open>StrWhiteSpaceChar\<close>): TAB, LF, VT, FF,
  CR, SP, NBSP, the other Unicode space separators, LS, PS and the byte order mark.
\<close>

definition isWhiteSpace :: "16 word \<Rightarrow> bool" where
  "isWhiteSpace c \<longleftrightarrow>
     c = 0x9 \<or> c = 0xA \<or> c = 0xB \<or> c = 0xC \<or> c = 0xD \<or> c = 0x20 \<or> c = 0xA0 \<or>
     c = 0x1680 \<or> (0x2000 \<le> c \<and> c \<le> 0x200A) \<or> c = 0x2028 \<or> c = 0x2029 \<or>
     c = 0x202F \<or> c = 0x205F \<or> c = 0x3000 \<or> c = 0xFEFF"

definition trimStart :: "jsstring \<Rightarrow> jsstring" where
  "trimStart s = dropWhile isWhiteSpace s"

text \<open>\<^verbatim>\<open>String.prototype.trim\<close>\<close>

definition trim :: "jsstring \<Rightarrow> jsstring" where
  "trim s = rev (dropWhile isWhiteSpace (rev (dropWhile isWhiteSpace s)))"

text \<open>
  \<^verbatim>\<open>String.prototype.split\<close> with a separator of one code unit: the pieces between the
  separators, so the result is never empty (\<^verbatim>\<open>"".split(',')\<close> is \<^verbatim>\<open>[""]\<close>).
\<close>

fun split :: "jsstring \<Rightarrow> 16 word \<Rightarrow> jsstring list" where
  "split [] sep = [[]]"
| "split (c # cs) sep =
     (if c = sep then [] # split cs sep
      else (case split cs sep of [] \<Rightarrow> [[c]] | w # ws \<Rightarrow> (c # w) # ws))"

text \<open>\<^verbatim>\<open>String.prototype.includes\<close> with a search string of one code unit.\<close>

definition includes' :: "jsstring \<Rightarrow> 16 word \<Rightarrow> bool" where
  "includes' s c \<longleftrightarrow> c \<in> set s"

subsection \<open>Numbers\<close>

text \<open>
  A number is NaN, an infinity or a finite binary64 value, held as the rational it
  denotes. The two zeros are identified: the program never divides by a computed value
  and prints both as \<^verbatim>\<open>0\<close>.
\<close>

datatype number = NaN | PosInf | NegInf | Fin rat

definition pow2 :: "int \<Rightarrow> rat" where
  "pow2 e = (if 0 \<le> e then 2 ^ nat e else 1 / 2 ^ nat (- e))"

function log2i :: "int \<Rightarrow> int" where
  "log2i n = (if n < 2 then 0 else 1 + log2i (n div 2))"
  by pat_completeness auto
termination
  by (relation "measure nat") auto

declare log2i.simps [simp del]

text \<open>The binary exponent of a positive rational \<open>a\<close>: \<open>2\<^sup>e \<le> a < 2\<^sup>e\<^sup>+\<^sup>1\<close>.\<close>

definition ilog2 :: "rat \<Rightarrow> int" where
  "ilog2 a = (let (p, q) = quotient_of a;
                  e = log2i p - log2i q
              in if pow2 e \<le> a then e else e - 1)"

text \<open>Rounding to the nearest integer, ties to even.\<close>

definition rne :: "rat \<Rightarrow> int" where
  "rne q = (let f = \<lfloor>q\<rfloor>; d = q - of_int f
            in if d < 1 / 2 then f else if 1 / 2 < d then f + 1
               else if even f then f else f + 1)"

text \<open>
  The binary64 value of a real: 53 significant bits, round to nearest, ties to even,
  gradual underflow below \<open>2\<^sup>-\<^sup>1\<^sup>0\<^sup>2\<^sup>2\<close>, overflow to an infinity from \<open>2\<^sup>1\<^sup>0\<^sup>2\<^sup>4\<close>.
\<close>

definition fl :: "rat \<Rightarrow> number" where
  "fl x = (if x = 0 then Fin 0
           else let a = \<bar>x\<bar>;
                    e = max (ilog2 a) (- 1022);
                    u = pow2 (e - 52);
                    v = of_int (rne (a / u)) * u
                in if pow2 1024 \<le> v then (if x < 0 then NegInf else PosInf)
                   else Fin (if x < 0 then - v else v))"

definition isNaN :: "number \<Rightarrow> bool" where
  "isNaN x \<longleftrightarrow> x = NaN"

text \<open>\<^verbatim>\<open>Number.isInteger\<close>\<close>

definition isInteger :: "number \<Rightarrow> bool" where
  "isInteger x = (case x of Fin r \<Rightarrow> of_int \<lfloor>r\<rfloor> = r | _ \<Rightarrow> False)"

text \<open>The operators \<^verbatim>\<open><\<close>, unary \<^verbatim>\<open>-\<close>, \<^verbatim>\<open>+\<close>, \<^verbatim>\<open>*\<close>, \<^verbatim>\<open>/\<close> and \<^verbatim>\<open>%\<close> on numbers.\<close>

fun num_lt :: "number \<Rightarrow> number \<Rightarrow> bool" where
  "num_lt NaN y = False"
| "num_lt x NaN = False"
| "num_lt PosInf y = False"
| "num_lt x NegInf = False"
| "num_lt NegInf y = True"
| "num_lt x PosInf = True"
| "num_lt (Fin a) (Fin b) = (a < b)"

fun num_neg :: "number \<Rightarrow> number" where
  "num_neg NaN = NaN"
| "num_neg PosInf = NegInf"
| "num_neg NegInf = PosInf"
| "num_neg (Fin a) = Fin (- a)"

fun num_add :: "number \<Rightarrow> number \<Rightarrow> number" where
  "num_add NaN y = NaN"
| "num_add x NaN = NaN"
| "num_add PosInf NegInf = NaN"
| "num_add NegInf PosInf = NaN"
| "num_add PosInf y = PosInf"
| "num_add NegInf y = NegInf"
| "num_add x PosInf = PosInf"
| "num_add x NegInf = NegInf"
| "num_add (Fin a) (Fin b) = fl (a + b)"

fun num_mul :: "number \<Rightarrow> number \<Rightarrow> number" where
  "num_mul NaN y = NaN"
| "num_mul x NaN = NaN"
| "num_mul (Fin a) (Fin b) = fl (a * b)"
| "num_mul (Fin a) y =
     (if a = 0 then NaN else if 0 < a then y else num_neg y)"
| "num_mul x (Fin b) =
     (if b = 0 then NaN else if 0 < b then x else num_neg x)"
| "num_mul x y = (if x = y then PosInf else NegInf)"

fun num_div :: "number \<Rightarrow> number \<Rightarrow> number" where
  "num_div NaN y = NaN"
| "num_div x NaN = NaN"
| "num_div (Fin a) (Fin b) =
     (if b = 0 then (if a = 0 then NaN else if 0 < a then PosInf else NegInf)
      else fl (a / b))"
| "num_div (Fin a) y = Fin 0"
| "num_div x (Fin b) = (if 0 \<le> b then x else num_neg x)"
| "num_div x y = NaN"

text \<open>
  The remainder takes the sign of the dividend (the quotient is truncated towards
  zero), and is exact.
\<close>

definition trunc :: "rat \<Rightarrow> int" where
  "trunc r = (if r < 0 then \<lceil>r\<rceil> else \<lfloor>r\<rfloor>)"

fun num_rem :: "number \<Rightarrow> number \<Rightarrow> number" where
  "num_rem NaN y = NaN"
| "num_rem x NaN = NaN"
| "num_rem PosInf y = NaN"
| "num_rem NegInf y = NaN"
| "num_rem (Fin a) (Fin b) =
     (if b = 0 then NaN else Fin (a - b * of_int (trunc (a / b))))"
| "num_rem (Fin a) y = Fin a"

text \<open>\<^verbatim>\<open>Math.floor\<close>\<close>

fun floor_num :: "number \<Rightarrow> number" where
  "floor_num (Fin a) = Fin (of_int \<lfloor>a\<rfloor>)"
| "floor_num x = x"

text \<open>The strict inequality \<^verbatim>\<open>!==\<close> of two numbers: NaN differs from everything.\<close>

definition strict_neq :: "number \<Rightarrow> number \<Rightarrow> bool" where
  "strict_neq x y \<longleftrightarrow> x = NaN \<or> y = NaN \<or> x \<noteq> y"

subsection \<open>Numbers to strings\<close>

function digits10 :: "nat \<Rightarrow> string" where
  "digits10 n =
     (if n < 10 then [''0123456789'' ! n]
      else digits10 (n div 10) @ [''0123456789'' ! (n mod 10)])"
  by pat_completeness auto
termination
  by (relation "measure id") auto

declare digits10.simps [simp del]

text \<open>
  \<^verbatim>\<open>Number.prototype.toString\<close>, as template literals and \<^verbatim>\<open>join\<close> apply it. Every
  number the program prints is NaN or an integer of small magnitude (a remainder, a
  die face, an accepted contribution), which JavaScript prints in decimal; for finite
  values that are not integers below \<open>10\<^sup>2\<^sup>1\<close> JavaScript would print a fraction or an
  exponent, where this function prints the integer part.
\<close>

definition toString :: "number \<Rightarrow> string" where
  "toString x =
     (case x of
        NaN \<Rightarrow> ''NaN''
      | PosInf \<Rightarrow> ''Infinity''
      | NegInf \<Rightarrow> ''-Infinity''
      | Fin r \<Rightarrow> (if r < 0 then ''-'' @ digits10 (nat (trunc (- r)))
                  else digits10 (nat (trunc r))))"

text \<open>
  \<^verbatim>\<open>Number.prototype.toFixed(2)\<close>: the integer \<open>n\<close> nearest to \<open>100 x\<close>, the larger one
  on a tie, printed with two decimals (for magnitudes below \<open>10\<^sup>2\<^sup>1\<close>).
\<close>

definition toFixed2 :: "number \<Rightarrow> string" where
  "toFixed2 x =
     (case x of
        NaN \<Rightarrow> ''NaN''
      | PosInf \<Rightarrow> ''Infinity''
      | NegInf \<Rightarrow> ''-Infinity''
      | Fin r \<Rightarrow>
          (let n = nat \<lfloor>\<bar>r\<bar> * 100 + 1 / 2\<rfloor>
           in (if r < 0 then ''-'' else '''') @ digits10 (n div 100) @ ''.'' @
              [''0123456789'' ! (n mod 100 div 10), ''0123456789'' ! (n mod 10)]))"

subsection \<open>Strings to numbers\<close>

definition isDigit :: "16 word \<Rightarrow> bool" where
  "isDigit c \<longleftrightarrow> 0x30 \<le> c \<and> c \<le> 0x39"

text \<open>The value of a digit or letter as a digit of some radix up to 36.\<close>

definition digitOf :: "16 word \<Rightarrow> int option" where
  "digitOf c =
     (if 0x30 \<le> c \<and> c \<le> 0x39 then Some (uint c - 0x30)
      else if 0x61 \<le> c \<and> c \<le> 0x7A then Some (uint c - 0x61 + 10)
      else if 0x41 \<le> c \<and> c \<le> 0x5A then Some (uint c - 0x41 + 10)
      else None)"

definition isRadixDigit :: "int \<Rightarrow> 16 word \<Rightarrow> bool" where
  "isRadixDigit R c = (case digitOf c of Some d \<Rightarrow> d < R | None \<Rightarrow> False)"

definition radixVal :: "int \<Rightarrow> jsstring \<Rightarrow> int" where
  "radixVal R ds =
     foldl (\<lambda>a c. (case digitOf c of Some d \<Rightarrow> a * R + d | None \<Rightarrow> a)) 0 ds"

text \<open>
  \<^verbatim>\<open>parseInt(string)\<close> with no radix: leading white space is skipped, then an optional
  sign, then \<^verbatim>\<open>0x\<close> or \<^verbatim>\<open>0X\<close> selects radix 16, and the longest run of digits is read;
  whatever follows is ignored. No digit at all gives NaN.
\<close>

definition parseInt :: "jsstring \<Rightarrow> number" where
  "parseInt string =
     (let S = trimStart string;
          sign = (case S of [] \<Rightarrow> 1 | c # r \<Rightarrow> if c = 0x2D then - 1 else 1);
          S1 = (case S of [] \<Rightarrow> S | c # r \<Rightarrow> if c = 0x2B \<or> c = 0x2D then r else S);
          hex = (case S1 of a # b # r \<Rightarrow> a = 0x30 \<and> (b = 0x78 \<or> b = 0x58) | _ \<Rightarrow> False);
          R = (if hex then 16 else 10);
          S2 = (if hex then drop 2 S1 else S1);
          Z = takeWhile (isRadixDigit R) S2
      in if Z = [] then NaN else fl (of_int (sign * radixVal R Z)))"

text \<open>
  The optional exponent part after a mantissa of value \<open>m\<close>: \<^verbatim>\<open>e\<close> or \<^verbatim>\<open>E\<close>, an
  optional sign and at least one digit. The result is the value and the unread rest.
\<close>

definition expPart :: "rat \<Rightarrow> jsstring \<Rightarrow> rat \<times> jsstring" where
  "expPart m s =
     (case s of
        [] \<Rightarrow> (m, s)
      | c # r \<Rightarrow>
          if c = 0x65 \<or> c = 0x45 then
            (let neg = (case r of [] \<Rightarrow> False | d # t \<Rightarrow> d = 0x2D);
                 r1 = (case r of [] \<Rightarrow> r | d # t \<Rightarrow> if d = 0x2B \<or> d = 0x2D then t else r);
                 ds = takeWhile isDigit r1;
                 k = nat (radixVal 10 ds)
             in if ds = [] then (m, s)
                else (if neg then m / 10 ^ k else m * 10 ^ k, dropWhile isDigit r1))
          else (m, s))"

text \<open>
  The longest prefix that is a \<^verbatim>\<open>StrUnsignedDecimalLiteral\<close>: \<^verbatim>\<open>Infinity\<close>, or digits
  with an optional fraction and exponent, or a fraction starting with the point.
\<close>

definition scanUnsigned :: "jsstring \<Rightarrow> (number \<times> jsstring) option" where
  "scanUnsigned s =
     (if take 8 s = js ''Infinity'' then Some (PosInf, drop 8 s)
      else
        (let ip = takeWhile isDigit s; r1 = dropWhile isDigit s
         in case r1 of
              [] \<Rightarrow> if ip = [] then None else Some (fl (of_int (radixVal 10 ip)), [])
            | c # r2 \<Rightarrow>
                if c = 0x2E then
                  (let fp = takeWhile isDigit r2; r3 = dropWhile isDigit r2
                   in if ip = [] \<and> fp = [] then None
                      else (case expPart (of_int (radixVal 10 ip)
                                   + of_int (radixVal 10 fp) / 10 ^ length fp) r3
                            of (m, rest) \<Rightarrow> Some (fl m, rest)))
                else if ip = [] then None
                else (case expPart (of_int (radixVal 10 ip)) r1
                      of (m, rest) \<Rightarrow> Some (fl m, rest))))"

definition scanDecimal :: "jsstring \<Rightarrow> (number \<times> jsstring) option" where
  "scanDecimal s =
     (case s of
        [] \<Rightarrow> None
      | c # r \<Rightarrow>
          if c = 0x2B then scanUnsigned r
          else if c = 0x2D then
            (case scanUnsigned r of None \<Rightarrow> None | Some (v, rest) \<Rightarrow> Some (num_neg v, rest))
          else scanUnsigned s)"

text \<open>\<^verbatim>\<open>parseFloat(string)\<close>: the value of the longest decimal literal after the white space.\<close>

definition parseFloat :: "jsstring \<Rightarrow> number" where
  "parseFloat string =
     (case scanDecimal (trimStart string) of None \<Rightarrow> NaN | Some (v, rest) \<Rightarrow> v)"

text \<open>A binary, octal or hexadecimal integer literal: \<^verbatim>\<open>0b\<close>, \<^verbatim>\<open>0o\<close>, \<^verbatim>\<open>0x\<close> and digits.\<close>

definition nonDecimal :: "jsstring \<Rightarrow> number option" where
  "nonDecimal t =
     (case t of
        a # b # ds \<Rightarrow>
          (let R = (if b = 0x78 \<or> b = 0x58 then 16
                    else if b = 0x6F \<or> b = 0x4F then 8
                    else if b = 0x62 \<or> b = 0x42 then 2 else 0)
           in if a = 0x30 \<and> ds \<noteq> [] \<and> list_all (isRadixDigit R) ds
              then Some (fl (of_int (radixVal R ds))) else None)
      | _ \<Rightarrow> None)"

text \<open>
  The conversion of a string to a number (\<^verbatim>\<open>ToNumber\<close>), which \<^verbatim>\<open>isNaN\<close> applies to a
  string argument: the whole string, white space at both ends apart, must be a numeric
  literal; the empty string is 0.
\<close>

definition StringToNumber :: "jsstring \<Rightarrow> number" where
  "StringToNumber s =
     (let t = trim s
      in if t = [] then Fin 0
         else (case nonDecimal t of
                 Some v \<Rightarrow> v
               | None \<Rightarrow> (case scanDecimal t of Some (v, []) \<Rightarrow> v | _ \<Rightarrow> NaN)))"


section \<open>The program\<close>

subsection \<open>Exceptions\<close>

text \<open>
  A thrown exception with its message: a \<^verbatim>\<open>TypeError\<close> of the runtime (a property read
  on \<^verbatim>\<open>undefined\<close>, which names the property) or the \<^verbatim>\<open>Error\<close> the \<^verbatim>\<open>Dice\<close>
  constructor throws. A function that can throw returns \<open>error + 'a\<close>.
\<close>

datatype error = TypeError string | Error string

fun message :: "error \<Rightarrow> string" where
  "message (TypeError m) = m"
| "message (Error m) = m"

definition undefined_read :: "string \<Rightarrow> error" where
  "undefined_read property =
     TypeError (''Cannot read properties of undefined (reading '' @ [CHR 0x27] @ property
                @ [CHR 0x27] @ '')'')"

subsection \<open>class Dice\<close>

record dice =
  values' :: "int list"

text \<open>
  The constructor. Its argument is a list of integers here, so of its three tests
  (an array, not empty, every element an integer) only the second can fail.
\<close>

definition Dice :: "int list \<Rightarrow> error + dice" where
  "Dice vals =
     (if length vals < 1
      then Inl (Error ''Invalid dice configuration. Must be an array of integers.'')
      else Inr \<lparr>values' = vals\<rparr>)"

text \<open>\<^verbatim>\<open>Array.prototype.join\<close> on the strings of the elements.\<close>

fun join :: "string \<Rightarrow> string list \<Rightarrow> string" where
  "join sep [] = []"
| "join sep [x] = x"
| "join sep (x # y # ys) = x @ sep @ join sep (y # ys)"

definition values_join :: "dice \<Rightarrow> string \<Rightarrow> string" where
  "values_join d sep = join sep (map (\<lambda>v. toString (Fin (of_int v))) (values' d))"

text \<open>
  \<^verbatim>\<open>xs[i]\<close> for an array and a number: the element when \<open>i\<close> is an integer within the
  bounds, and \<^verbatim>\<open>undefined\<close> (\<open>None\<close>) otherwise.
\<close>

definition index :: "'a list \<Rightarrow> number \<Rightarrow> 'a option" where
  "index xs i =
     (case i of
        Fin r \<Rightarrow> if of_int \<lfloor>r\<rfloor> = r \<and> 0 \<le> r \<and> r < of_nat (length xs)
                 then Some (xs ! nat \<lfloor>r\<rfloor>) else None
      | _ \<Rightarrow> None)"

text \<open>
  \<^verbatim>\<open>Array.prototype.splice(start, deleteCount)\<close>: the removed elements and the array as
  it is left. A negative start counts from the end, and both arguments are clamped to
  the array.
\<close>

definition splice :: "'a list \<Rightarrow> number \<Rightarrow> nat \<Rightarrow> 'a list \<times> 'a list" where
  "splice xs start deleteCount =
     (let len = int (length xs);
          relativeStart = (case start of
                             Fin r \<Rightarrow> trunc r | NaN \<Rightarrow> 0 | PosInf \<Rightarrow> len | NegInf \<Rightarrow> - len);
          actualStart = nat (if relativeStart < 0 then max (len + relativeStart) 0
                             else min relativeStart len);
          actualDeleteCount = min deleteCount (length xs - actualStart)
      in (take actualDeleteCount (drop actualStart xs),
          take actualStart xs @ drop (actualStart + actualDeleteCount) xs))"

subsection \<open>class DiceGame and the process around it\<close>

text \<open>
  The function that \<^verbatim>\<open>rl.question\<close> registered and that the next input line will be
  passed to, with the local variables its closure captured: the arrow functions of
  \<^verbatim>\<open>promptUser\<close> and \<^verbatim>\<open>chooseDice\<close>, the outer one of \<^verbatim>\<open>playRound\<close> (capturing
  \<^verbatim>\<open>compRandom\<close>) and the inner one (using \<^verbatim>\<open>compRoll\<close> and \<^verbatim>\<open>userCompRandom\<close>). A roll
  is \<open>None\<close> when \<^verbatim>\<open>roll()\<close> returned \<^verbatim>\<open>undefined\<close>.
\<close>

datatype callback =
    PromptUser
  | ChooseDice
  | PlayRound number
  | PlayRoundUser "int option" number

datatype readline = Idle | Waiting callback | Closed

text \<open>
  The fields of the \<^verbatim>\<open>DiceGame\<close> object (\<open>None\<close> while a field is still
  \<^verbatim>\<open>undefined\<close>), followed by what the methods touch outside it: the lines written to
  standard output, the bytes \<^verbatim>\<open>crypto.randomBytes\<close> will deliver and the values
  \<^verbatim>\<open>Math.random\<close> will return, each with the position reached. \<^verbatim>\<open>Math.random()\<close> is
  read as \<open>k / 2\<^sup>5\<^sup>3\<close> for a 53-bit \<open>k\<close>.
\<close>

record game =
  rl :: readline
  diceSet :: "dice list option"
  userDice :: "dice option"
  compDice :: "dice option"
  key :: "string option"
  compChoice :: "number option"
  hmac :: "string option"
  out :: "string list"
  csprng :: "nat \<Rightarrow> 8 word"
  cpos :: nat
  prng :: "nat \<Rightarrow> 53 word"
  ppos :: nat

text \<open>\<^verbatim>\<open>new DiceGame()\<close> in a process with the given sources of randomness.\<close>

definition DiceGame :: "(nat \<Rightarrow> 8 word) \<Rightarrow> (nat \<Rightarrow> 53 word) \<Rightarrow> game" where
  "DiceGame bytes draws =
     \<lparr>rl = Idle, diceSet = None, userDice = None, compDice = None, key = None,
      compChoice = None, hmac = None, out = [], csprng = bytes, cpos = 0,
      prng = draws, ppos = 0\<rparr>"

definition console_log :: "string \<Rightarrow> game \<Rightarrow> game" where
  "console_log line g = g\<lparr>out := out g @ [line]\<rparr>"

definition rl_question :: "string \<Rightarrow> callback \<Rightarrow> game \<Rightarrow> game" where
  "rl_question query cb g = g\<lparr>out := out g @ [query], rl := Waiting cb\<rparr>"

definition rl_close :: "game \<Rightarrow> game" where
  "rl_close g = g\<lparr>rl := Closed\<rparr>"

text \<open>How a template literal prints a field or a roll that may be \<^verbatim>\<open>undefined\<close>.\<close>

definition show_string :: "string option \<Rightarrow> string" where
  "show_string v = (case v of None \<Rightarrow> ''undefined'' | Some s \<Rightarrow> s)"

definition show_number :: "number option \<Rightarrow> string" where
  "show_number v = (case v of None \<Rightarrow> ''undefined'' | Some x \<Rightarrow> toString x)"

definition show_roll :: "int option \<Rightarrow> string" where
  "show_roll v = (case v of None \<Rightarrow> ''undefined'' | Some n \<Rightarrow> toString (Fin (of_int n)))"

text \<open>\<^verbatim>\<open>userRoll > compRoll\<close>: false when either side is \<^verbatim>\<open>undefined\<close>.\<close>

definition roll_gt :: "int option \<Rightarrow> int option \<Rightarrow> bool" where
  "roll_gt a b = (case (a, b) of (Some x, Some y) \<Rightarrow> y < x | _ \<Rightarrow> False)"

subsection \<open>Randomness\<close>

definition randomBytes :: "nat \<Rightarrow> game \<Rightarrow> 8 word list \<times> game" where
  "randomBytes n g = (map (csprng g) [cpos g ..< cpos g + n], g\<lparr>cpos := cpos g + n\<rparr>)"

text \<open>\<^verbatim>\<open>Buffer.prototype.toString('hex')\<close>: two lower-case hexadecimal digits per byte.\<close>

definition toHex :: "8 word list \<Rightarrow> string" where
  "toHex bs =
     concat (map (\<lambda>b. [''0123456789abcdef'' ! (unat b div 16),
                         ''0123456789abcdef'' ! (unat b mod 16)]) bs)"

definition readUInt32BE :: "8 word list \<Rightarrow> number" where
  "readUInt32BE bs = Fin (of_nat (foldl (\<lambda>a b. a * 256 + unat b) 0 (take 4 bs)))"

definition generateRandomKey :: "game \<Rightarrow> string \<times> game" where
  "generateRandomKey g = (case randomBytes 32 g of (bs, g') \<Rightarrow> (toHex bs, g'))"

definition generateRandomNumber :: "number \<Rightarrow> game \<Rightarrow> number \<times> game" where
  "generateRandomNumber range' g =
     (case randomBytes 4 g of (bs, g') \<Rightarrow> (num_rem (readUInt32BE bs) range', g'))"

text \<open>
  \<^verbatim>\<open>crypto.createHmac('sha3-256', key).update(message).digest('hex')\<close>. The hash is the
  library's; the program is modelled for any function \<open>H\<close> of key and message in its
  place.
\<close>

definition generateHMAC :: "(string \<Rightarrow> string \<Rightarrow> string) \<Rightarrow> string \<Rightarrow> string \<Rightarrow> string" where
  "generateHMAC H k m = H k m"

definition Math_random :: "game \<Rightarrow> number \<times> game" where
  "Math_random g = (Fin (of_nat (unat (prng g (ppos g))) / 2 ^ 53), g\<lparr>ppos := Suc (ppos g)\<rparr>)"

definition roll :: "dice \<Rightarrow> game \<Rightarrow> int option \<times> game" where
  "roll d g =
     (case Math_random g of
        (u, g') \<Rightarrow>
          (index (values' d) (floor_num (num_mul u (Fin (of_nat (length (values' d)))))), g'))"


subsection \<open>The methods of DiceGame\<close>

definition validateDiceInput :: "jsstring option \<Rightarrow> error + bool" where
  "validateDiceInput input =
     (case input of
        None \<Rightarrow> Inl (undefined_read ''split'')
      | Some s \<Rightarrow>
          (let diceValues = map (\<lambda>val. parseInt (trim val)) (split s 0x2C)
           in Inr (3 \<le> length diceValues
                   \<and> list_all (\<lambda>val. \<not> isNaN val \<and> isInteger val) diceValues)))"

definition promptUser :: "game \<Rightarrow> game" where
  "promptUser g =
     (let g = console_log ''Try to guess my selection.'' g;
          g = console_log ''0 - 0\<newline>1 - 1\<newline>X - exit\<newline>? - help'' g
      in rl_question ''Your selection: '' PromptUser g)"

text \<open>
  An array literal of \<^verbatim>\<open>new Dice(...)\<close> expressions: they are evaluated from left to
  right, and the first one that throws ends the evaluation.
\<close>

fun construct :: "int list list \<Rightarrow> error + dice list" where
  "construct [] = Inr []"
| "construct (v # vs) =
     (case Dice v of
        Inl e \<Rightarrow> Inl e
      | Inr d \<Rightarrow> (case construct vs of Inl e \<Rightarrow> Inl e | Inr ds \<Rightarrow> Inr (d # ds)))"

definition startGame ::
  "(string \<Rightarrow> string \<Rightarrow> string) \<Rightarrow> game \<Rightarrow> jsstring option \<Rightarrow> error + game" where
  "startGame H g diceInput =
     (case validateDiceInput diceInput of
        Inl e \<Rightarrow> Inl e
      | Inr validDiceInput \<Rightarrow>
          if \<not> validDiceInput then
            Inr (rl_close (console_log
                   ''Invalid input. Please provide at least 3 valid dice values.'' g))
          else
            (case construct [[2, 2, 4, 4, 9, 9], [1, 1, 6, 6, 8, 8], [3, 3, 5, 5, 7, 7]] of
               Inl e \<Rightarrow> Inr (console_log (''Error in dice configuration: '' @ message e) g)
             | Inr ds \<Rightarrow>
                 (let g = g\<lparr>diceSet := Some ds\<rparr>;
                      g = console_log ''Let's determine who makes the first move.'' g;
                      (k, g) = generateRandomKey g;
                      g = g\<lparr>key := Some k\<rparr>;
                      (c, g) = generateRandomNumber (Fin 2) g;
                      g = g\<lparr>compChoice := Some c\<rparr>;
                      g = g\<lparr>hmac := Some (generateHMAC H k (toString c))\<rparr>;
                      g = console_log (''I selected a random value in the range 0..1 (HMAC=''
                                       @ show_string (hmac g) @ '').'') g
                  in Inr (promptUser g))))"

text \<open>The loop of \<^verbatim>\<open>calculateWinProbability\<close>, by the number of trials still to run.\<close>

fun trials_loop :: "nat \<Rightarrow> dice \<Rightarrow> dice \<Rightarrow> nat \<Rightarrow> game \<Rightarrow> nat \<times> game" where
  "trials_loop 0 userDice' compDice' wins g = (wins, g)"
| "trials_loop (Suc n) userDice' compDice' wins g =
     (case roll userDice' g of
        (userRoll, g1) \<Rightarrow>
          (case roll compDice' g1 of
             (compRoll, g2) \<Rightarrow>
               trials_loop n userDice' compDice'
                 (if roll_gt userRoll compRoll then Suc wins else wins) g2))"

definition calculateWinProbability :: "dice \<Rightarrow> dice \<Rightarrow> game \<Rightarrow> number \<times> game" where
  "calculateWinProbability userDice' compDice' g =
     (case trials_loop 10000 userDice' compDice' 0 g of
        (wins, g') \<Rightarrow> (num_mul (num_div (Fin (of_nat wins)) (Fin 10000)) (Fin 100), g'))"

text \<open>The \<^verbatim>\<open>forEach\<close> of \<^verbatim>\<open>generateProbabilityTable\<close>, appending one row per pair.\<close>

fun table_rows ::
  "(int list \<times> int list) list \<Rightarrow> string \<Rightarrow> game \<Rightarrow> error + string \<times> game" where
  "table_rows [] table g = Inr (table, g)"
| "table_rows ((u, c) # pairs) table g =
     (case Dice u of
        Inl e \<Rightarrow> Inl e
      | Inr userDice' \<Rightarrow>
          (case Dice c of
             Inl e \<Rightarrow> Inl e
           | Inr compDice' \<Rightarrow>
               (case calculateWinProbability userDice' compDice' g of
                  (winProb, g') \<Rightarrow>
                    table_rows pairs
                      (table @ ''| ['' @ values_join userDice' '', '' @ '']  | [''
                       @ values_join compDice' '', '' @ ''] | '' @ toFixed2 winProb
                       @ '' %          |\<newline>'') g')))"

definition generateProbabilityTable :: "game \<Rightarrow> error + string \<times> game" where
  "generateProbabilityTable g =
     (case table_rows
             [([2, 2, 4, 4, 9, 9], [1, 1, 6, 6, 8, 8]),
              ([2, 2, 4, 4, 9, 9], [3, 3, 5, 5, 7, 7]),
              ([1, 1, 6, 6, 8, 8], [3, 3, 5, 5, 7, 7])]
             (''-----------------------------------------\<newline>''
              @ ''| User Dice        | Computer Dice   | Win Probability (%) |\<newline>''
              @ ''-----------------------------------------\<newline>'') g of
        Inl e \<Rightarrow> Inl e
      | Inr (table, g') \<Rightarrow>
          Inr (table @ ''-----------------------------------------\<newline>'', g'))"

definition displayHelp :: "game \<Rightarrow> error + game" where
  "displayHelp g =
     (let g = console_log
                (''\<newline>Help: Here is the probability of winning for each dice pair ''
                 @ ''(custom dice and your dice):'') g
      in case generateProbabilityTable g of
           Inl e \<Rightarrow> Inl e
         | Inr (table, g) \<Rightarrow> Inr (promptUser (console_log table g)))"

definition chooseDice :: "game \<Rightarrow> error + game" where
  "chooseDice g =
     (let g = console_log ''Choose your dice:'' g
      in case diceSet g of
           None \<Rightarrow> Inl (undefined_read ''forEach'')
         | Some ds \<Rightarrow>
             (let g = foldl (\<lambda>g (i, d). console_log
                               (toString (Fin (of_nat i)) @ '' - ['' @ values_join d '','' @ '']'') g)
                        g (zip [0 ..< length ds] ds);
                  g = console_log ''X - exit\<newline>? - help'' g
              in Inr (rl_question ''Your selection: '' ChooseDice g)))"

definition resolveFirstMove :: "game \<Rightarrow> number \<Rightarrow> error + game" where
  "resolveFirstMove g userGuess =
     (let g = console_log (''My selection: '' @ show_number (compChoice g)
                           @ '' (KEY='' @ show_string (key g) @ '').'') g;
          g = (if (case compChoice g of None \<Rightarrow> True | Some c \<Rightarrow> strict_neq userGuess c)
               then console_log ''I make the first move and choose the [1,1,6,6,8,8] dice.'' g
               else g)
      in chooseDice g)"

text \<open>
  \<^verbatim>\<open>!isNaN(diceIndex) && this.diceSet[diceIndex]\<close>, as the condition of an \<^verbatim>\<open>if\<close>: a
  \<^verbatim>\<open>Dice\<close> object is truthy, \<^verbatim>\<open>undefined\<close> is not.
\<close>

definition isValidDiceChoice :: "game \<Rightarrow> jsstring \<Rightarrow> error + bool" where
  "isValidDiceChoice g answer =
     (let diceIndex = parseInt answer
      in if isNaN diceIndex then Inr False
         else (case diceSet g of
                 None \<Rightarrow> Inl (undefined_read (toString diceIndex))
               | Some ds \<Rightarrow> Inr (index ds diceIndex \<noteq> None)))"

definition playRound :: "(string \<Rightarrow> string \<Rightarrow> string) \<Rightarrow> game \<Rightarrow> game" where
  "playRound H g =
     (let g = console_log ''It's time for my roll.'' g;
          (k, g) = generateRandomKey g;
          g = g\<lparr>key := Some k\<rparr>;
          (compRandom, g) = generateRandomNumber (Fin 6) g;
          g = g\<lparr>hmac := Some (generateHMAC H k (toString compRandom))\<rparr>;
          g = console_log (''I selected a random value in the range 0..5 (HMAC=''
                           @ show_string (hmac g) @ '').'') g
      in rl_question
           (''Add your number modulo 6.\<newline>0 - 0\<newline>1 - 1\<newline>2 - 2\<newline>3 - 3\<newline>''
            @ ''4 - 4\<newline>5 - 5\<newline>X - exit\<newline>? - help\<newline>Your selection: '')
           (PlayRound compRandom) g)"

text \<open>
  The fair-result expression \<^verbatim>\<open>(compRandom + userRandom) % 6\<close> of \<^verbatim>\<open>playRound\<close>, and
  \<^verbatim>\<open>(userCompRandom + userCompMod) % 6\<close> in its inner callback, for any modulus.
\<close>

definition combine :: "number \<Rightarrow> number \<Rightarrow> number \<Rightarrow> number" where
  "combine a b modulus = num_rem (num_add a b) modulus"

definition parseIntegerInput :: "jsstring \<Rightarrow> game \<Rightarrow> number option \<times> game" where
  "parseIntegerInput input g =
     (if input = [] \<or> includes' input 0x2C \<or> isNaN (StringToNumber input)
         \<or> \<not> isInteger (parseFloat input)
      then (None, console_log
              ''Invalid input. Please enter a valid number (no commas) between 0 and 5.'' g)
      else (let parsedValue = parseInt input
            in if num_lt parsedValue (Fin 0) \<or> num_lt (Fin 5) parsedValue
               then (None, console_log
                       ''Invalid input. Please enter a number between 0 and 5.'' g)
               else (Some parsedValue, g)))"

subsection \<open>The callbacks\<close>

text \<open>The arrow function of \<^verbatim>\<open>promptUser\<close>.\<close>

definition promptUser_answer :: "game \<Rightarrow> jsstring \<Rightarrow> error + game" where
  "promptUser_answer g answer =
     (if answer = js ''X'' \<or> answer = js ''x'' then
        Inr (rl_close (console_log ''Exiting game.'' g))
      else if answer = js ''?'' then displayHelp g
      else if answer = js ''0'' \<or> answer = js ''1'' then
        resolveFirstMove g (parseInt answer)
      else
        Inr (promptUser (console_log ''Invalid input. Please enter 0, 1, X, or ?.'' g)))"

text \<open>The arrow function of \<^verbatim>\<open>chooseDice\<close>.\<close>

definition chooseDice_answer ::
  "(string \<Rightarrow> string \<Rightarrow> string) \<Rightarrow> game \<Rightarrow> jsstring \<Rightarrow> error + game" where
  "chooseDice_answer H g answer =
     (if answer = js ''X'' \<or> answer = js ''x'' then
        Inr (rl_close (console_log ''Exiting game.'' g))
      else
        (case isValidDiceChoice g answer of
           Inl e \<Rightarrow> Inl e
         | Inr valid \<Rightarrow>
             if valid then
               (case diceSet g of
                  None \<Rightarrow> Inl (undefined_read ''splice'')
                | Some ds \<Rightarrow>
                    (case splice ds (parseInt answer) 1 of
                       (removed, remaining) \<Rightarrow>
                         (let g = g\<lparr>diceSet := Some remaining\<rparr>;
                              g = g\<lparr>userDice := index removed (Fin 0)\<rparr>
                          in case userDice g of
                               None \<Rightarrow> Inl (undefined_read ''values'')
                             | Some d \<Rightarrow>
                                 (let g = console_log (''You choose the ['' @ values_join d '',''
                                                       @ ''] dice.'') g;
                                      g = g\<lparr>compDice := index remaining (Fin 0)\<rparr>
                                  in Inr (playRound H g)))))
             else
               chooseDice (console_log
                 ''Invalid input. Please enter a valid dice index, X, or ?.'' g)))"

text \<open>The inner arrow function of \<^verbatim>\<open>playRound\<close>, which receives \<^verbatim>\<open>userAnswer\<close>.\<close>

definition playRound_userAnswer ::
  "(string \<Rightarrow> string \<Rightarrow> string) \<Rightarrow> game \<Rightarrow> int option \<Rightarrow> number \<Rightarrow> jsstring
    \<Rightarrow> error + game" where
  "playRound_userAnswer H g compRoll userCompRandom userAnswer =
     (if userAnswer = js ''X'' \<or> userAnswer = js ''x'' then
        Inr (rl_close (console_log ''Exiting game.'' g))
      else
        (case parseIntegerInput userAnswer g of
           (None, g) \<Rightarrow> Inr (playRound H g)
         | (Some userCompMod, g) \<Rightarrow>
             (let g = console_log (''My number is '' @ toString userCompRandom @ '' (KEY=''
                                   @ show_string (key g) @ '').'') g;
                  userFairResult = combine userCompRandom userCompMod (Fin 6);
                  g = console_log (''The fair number generation result is ''
                                   @ toString userCompRandom @ '' + '' @ toString userCompMod
                                   @ '' = '' @ toString userFairResult @ '' (mod 6).'') g
              in case userDice g of
                   None \<Rightarrow> Inl (undefined_read ''roll'')
                 | Some d \<Rightarrow>
                     (case roll d g of
                        (userRoll, g) \<Rightarrow>
                          (let g = console_log (''Your roll result is '' @ show_roll userRoll
                                                @ ''.'') g;
                               g = (if roll_gt userRoll compRoll
                                    then console_log (''You win ('' @ show_roll userRoll @ '' > ''
                                                      @ show_roll compRoll @ '')!'') g
                                    else console_log ''I win!'' g)
                           in Inr (rl_close g))))))"

text \<open>The outer arrow function of \<^verbatim>\<open>playRound\<close>, which receives \<^verbatim>\<open>answer\<close>.\<close>

definition playRound_answer ::
  "(string \<Rightarrow> string \<Rightarrow> string) \<Rightarrow> game \<Rightarrow> number \<Rightarrow> jsstring \<Rightarrow> error + game" where
  "playRound_answer H g compRandom answer =
     (if answer = js ''X'' \<or> answer = js ''x'' then
        Inr (rl_close (console_log ''Exiting game.'' g))
      else
        (case parseIntegerInput answer g of
           (None, g) \<Rightarrow> Inr (playRound H g)
         | (Some userRandom, g) \<Rightarrow>
             (let g = console_log (''My number is '' @ toString compRandom @ '' (KEY=''
                                   @ show_string (key g) @ '').'') g;
                  fairResult = combine compRandom userRandom (Fin 6);
                  g = console_log (''The fair number generation result is ''
                                   @ toString compRandom @ '' + '' @ toString userRandom
                                   @ '' = '' @ toString fairResult @ '' (mod 6).'') g
              in case compDice g of
                   None \<Rightarrow> Inl (undefined_read ''roll'')
                 | Some d \<Rightarrow>
                     (case roll d g of
                        (compRoll, g) \<Rightarrow>
                          (let g = console_log (''My roll result is '' @ show_roll compRoll
                                                @ ''.'') g;
                               g = console_log ''Now it your turn.'' g;
                               (k, g) = generateRandomKey g;
                               g = g\<lparr>key := Some k\<rparr>;
                               (userCompRandom, g) = generateRandomNumber (Fin 6) g;
                               g = g\<lparr>hmac := Some (generateHMAC H k (toString userCompRandom))\<rparr>;
                               g = console_log
                                     (''I selected a random value in the range 0..5 (HMAC=''
                                      @ show_string (hmac g) @ '').'') g
                           in Inr (rl_question ''Your selection: ''
                                     (PlayRoundUser compRoll userCompRandom) g))))))"

text \<open>
  An input line arrives: \<^verbatim>\<open>readline\<close> passes it to the callback of the pending
  question, which is thereby used up. Without a pending question (none asked, or the
  interface closed) nothing of the program runs.
\<close>

definition on_line ::
  "(string \<Rightarrow> string \<Rightarrow> string) \<Rightarrow> game \<Rightarrow> jsstring \<Rightarrow> error + game" where
  "on_line H g answer =
     (case rl g of
        Waiting cb \<Rightarrow>
          (let g = g\<lparr>rl := Idle\<rparr>
           in case cb of
                PromptUser \<Rightarrow> promptUser_answer g answer
              | ChooseDice \<Rightarrow> chooseDice_answer H g answer
              | PlayRound compRandom \<Rightarrow> playRound_answer H g compRandom answer
              | PlayRoundUser compRoll userCompRandom \<Rightarrow>
                  playRound_userAnswer H g compRoll userCompRandom answer)
      | _ \<Rightarrow> Inr g)"

text \<open>
  The program: \<^verbatim>\<open>process.argv[2]\<close> (\<open>None\<close> when the command line has no argument)
  is passed to \<^verbatim>\<open>startGame\<close> of a new \<^verbatim>\<open>DiceGame\<close>; then the input lines arrive one by
  one. An uncaught exception ends the process.
\<close>

fun lines :: "(string \<Rightarrow> string \<Rightarrow> string) \<Rightarrow> error + game \<Rightarrow> jsstring list \<Rightarrow> error + game" where
  "lines H r [] = r"
| "lines H (Inl e) (answer # answers) = Inl e"
| "lines H (Inr g) (answer # answers) = lines H (on_line H g answer) answers"

definition main ::
  "(string \<Rightarrow> string \<Rightarrow> string) \<Rightarrow> (nat \<Rightarrow> 8 word) \<Rightarrow> (nat \<Rightarrow> 53 word) \<Rightarrow> jsstring option
    \<Rightarrow> jsstring list \<Rightarrow> error + game" where
  "main H bytes draws diceInput answers =
     lines H (startGame H (DiceGame bytes draws) diceInput) answers"


section \<open>Sessions\<close>

subsection \<open>Phases, reachable states and the pending commitment\<close>

text \<open>
  The phase of the specification's state machine that a state of the program is in, by
  the question that is pending: \<^verbatim>\<open>promptUser\<close> asks during FirstMove, \<^verbatim>\<open>chooseDice\<close>
  during DiceSelection and \<^verbatim>\<open>playRound\<close> (both of its questions) during RollExchange.
\<close>

datatype phase = Init | FirstMove | DiceSelection | RollExchange | Done

definition phase_of :: "game \<Rightarrow> phase" where
  "phase_of g =
     (case rl g of
        Idle \<Rightarrow> Init
      | Closed \<Rightarrow> Done
      | Waiting cb \<Rightarrow>
          (case cb of
             PromptUser \<Rightarrow> FirstMove
           | ChooseDice \<Rightarrow> DiceSelection
           | PlayRound c \<Rightarrow> RollExchange
           | PlayRoundUser r c \<Rightarrow> RollExchange))"

text \<open>
  The states a run of the program passes through: the one \<^verbatim>\<open>startGame\<close> leaves behind,
  and the one after each further input line.
\<close>

inductive reachable :: "(string \<Rightarrow> string \<Rightarrow> string) \<Rightarrow> game \<Rightarrow> bool"
  for H :: "string \<Rightarrow> string \<Rightarrow> string" where
  start: "startGame H (DiceGame bytes draws) diceInput = Inr g \<Longrightarrow> reachable H g"
| step: "reachable H g \<Longrightarrow> on_line H g answer = Inr g' \<Longrightarrow> reachable H g'"

text \<open>
  The value the computer has committed to and not yet revealed: \<^verbatim>\<open>this.compChoice\<close>
  while the guess is awaited, and the \<^verbatim>\<open>compRandom\<close> or \<^verbatim>\<open>userCompRandom\<close> of the
  pending callback during a round. Its secret is \<^verbatim>\<open>this.key\<close> and its tag \<^verbatim>\<open>this.hmac\<close>.
\<close>

definition pending :: "game \<Rightarrow> number option" where
  "pending g =
     (case rl g of
        Waiting cb \<Rightarrow>
          (case cb of
             PromptUser \<Rightarrow> compChoice g
           | ChooseDice \<Rightarrow> None
           | PlayRound c \<Rightarrow> Some c
           | PlayRoundUser r c \<Rightarrow> Some c)
      | _ \<Rightarrow> None)"

subsection \<open>What the methods draw and print\<close>

text \<open>
  The key, the number below \<open>range'\<close> and the die face that the random sources yield at
  a given position.
\<close>

definition key_at :: "(nat \<Rightarrow> 8 word) \<Rightarrow> nat \<Rightarrow> string" where
  "key_at bytes p = toHex (map bytes [p ..< p + 32])"

definition number_at :: "(nat \<Rightarrow> 8 word) \<Rightarrow> nat \<Rightarrow> number \<Rightarrow> number" where
  "number_at bytes p range' = num_rem (readUInt32BE (map bytes [p ..< p + 4])) range'"

definition face_at :: "(nat \<Rightarrow> 53 word) \<Rightarrow> nat \<Rightarrow> dice \<Rightarrow> int option" where
  "face_at draws p d =
     index (values' d)
       (floor_num (num_mul (Fin (of_nat (unat (draws p)) / 2 ^ 53))
                           (Fin (of_nat (length (values' d))))))"

text \<open>The dice set that \<^verbatim>\<open>startGame\<close> constructs.\<close>

definition preset :: "dice list" where
  "preset = [\<lparr>values' = [2, 2, 4, 4, 9, 9]\<rparr>, \<lparr>values' = [1, 1, 6, 6, 8, 8]\<rparr>,
             \<lparr>values' = [3, 3, 5, 5, 7, 7]\<rparr>]"

text \<open>The lines and prompts of the methods, for stating what a step prints.\<close>

definition tag_line :: "string \<Rightarrow> string \<Rightarrow> string" where
  "tag_line hi tag = ''I selected a random value in the range 0..'' @ hi @ '' (HMAC='' @ tag @ '').''"

definition round_prompt :: string where
  "round_prompt =
     ''Add your number modulo 6.\<newline>0 - 0\<newline>1 - 1\<newline>2 - 2\<newline>3 - 3\<newline>''
     @ ''4 - 4\<newline>5 - 5\<newline>X - exit\<newline>? - help\<newline>Your selection: ''"

definition guess_menu :: "string list" where
  "guess_menu = [''Try to guess my selection.'',
                 ''0 - 0\<newline>1 - 1\<newline>X - exit\<newline>? - help'', ''Your selection: '']"

definition dice_menu :: "dice list \<Rightarrow> string list" where
  "dice_menu ds =
     ''Choose your dice:''
     # map (\<lambda>(i, d). toString (Fin (of_nat i)) @ '' - ['' @ values_join d '','' @ '']'')
           (zip [0 ..< length ds] ds)
     @ [''X - exit\<newline>? - help'', ''Your selection: '']"

definition first_move_lines :: "game \<Rightarrow> number \<Rightarrow> string list" where
  "first_move_lines g userGuess =
     (''My selection: '' @ show_number (compChoice g) @ '' (KEY='' @ show_string (key g) @ '').'')
     # (if (case compChoice g of None \<Rightarrow> True | Some c \<Rightarrow> strict_neq userGuess c)
        then [''I make the first move and choose the [1,1,6,6,8,8] dice.''] else [])"

definition reveal_line :: "number \<Rightarrow> string \<Rightarrow> string" where
  "reveal_line v k = ''My number is '' @ toString v @ '' (KEY='' @ k @ '').''"

definition fair_line :: "number \<Rightarrow> number \<Rightarrow> string" where
  "fair_line a b =
     ''The fair number generation result is '' @ toString a @ '' + '' @ toString b
     @ '' = '' @ toString (combine a b (Fin 6)) @ '' (mod 6).''"

definition outcome_line :: "int option \<Rightarrow> int option \<Rightarrow> string" where
  "outcome_line userRoll compRoll =
     (if roll_gt userRoll compRoll
      then ''You win ('' @ show_roll userRoll @ '' > '' @ show_roll compRoll @ '')!''
      else ''I win!'')"

text \<open>
  The message with which \<^verbatim>\<open>parseIntegerInput\<close> rejects an input (it then returns
  \<^verbatim>\<open>null\<close>), or \<open>None\<close> when it returns \<^verbatim>\<open>parseInt(input)\<close>.
\<close>

definition rejection :: "jsstring \<Rightarrow> string option" where
  "rejection input =
     (if input = [] \<or> includes' input 0x2C \<or> isNaN (StringToNumber input)
         \<or> \<not> isInteger (parseFloat input)
      then Some ''Invalid input. Please enter a valid number (no commas) between 0 and 5.''
      else if num_lt (parseInt input) (Fin 0) \<or> num_lt (Fin 5) (parseInt input)
      then Some ''Invalid input. Please enter a number between 0 and 5.''
      else None)"

text \<open>
  Two kinds of text, for stating which inputs a round rejects. A decimal integer is an
  optional sign followed by one or more of the digits \<^verbatim>\<open>0\<close> to \<^verbatim>\<open>9\<close> and nothing else, and
  \<open>decimal_integer\<close> gives the integer it denotes. A text does not begin like a number
  when its first character is neither white space, a digit, a sign, a point nor the
  \<^verbatim>\<open>I\<close> of \<^verbatim>\<open>Infinity\<close>.
\<close>

definition decimal_integer :: "jsstring \<Rightarrow> int option" where
  "decimal_integer s =
     (case s of
        [] \<Rightarrow> None
      | c # r \<Rightarrow>
          if c = 0x2D \<or> c = 0x2B then
            (if r \<noteq> [] \<and> list_all isDigit r
             then Some (if c = 0x2D then - radixVal 10 r else radixVal 10 r) else None)
          else if list_all isDigit s then Some (radixVal 10 s) else None)"

definition no_literal :: "jsstring \<Rightarrow> bool" where
  "no_literal s =
     (case s of
        [] \<Rightarrow> False
      | c # r \<Rightarrow> \<not> isWhiteSpace c \<and> \<not> isDigit c
                 \<and> c \<noteq> 0x2B \<and> c \<noteq> 0x2D \<and> c \<noteq> 0x2E \<and> c \<noteq> 0x49)"

subsection \<open>The invariant of a session\<close>

text \<open>
  The pending commitment of value \<open>v\<close> is sound: \<open>v\<close> is an integer from 0 to 5, the tag
  is the MAC of its decimal string under the key, and the tag has been printed.
\<close>

definition committed :: "(string \<Rightarrow> string \<Rightarrow> string) \<Rightarrow> game \<Rightarrow> number \<Rightarrow> bool" where
  "committed H g v \<longleftrightarrow>
     (\<exists>k n. key g = Some k \<and> v = Fin (of_nat n) \<and> n < 6
            \<and> hmac g = Some (H k (toString v))
            \<and> (tag_line ''1'' (H k (toString v)) \<in> set (out g)
               \<or> tag_line ''5'' (H k (toString v)) \<in> set (out g)))"

text \<open>
  The dice: all three in the set and none assigned, or the user's die taken out at
  some position and the computer holding the first of the two that are left.
\<close>

definition fresh_pool :: "game \<Rightarrow> bool" where
  "fresh_pool g \<longleftrightarrow> diceSet g = Some preset \<and> userDice g = None \<and> compDice g = None"

definition taken :: "game \<Rightarrow> bool" where
  "taken g \<longleftrightarrow>
     (\<exists>n. n < 3 \<and> diceSet g = Some (take n preset @ drop (Suc n) preset)
          \<and> userDice g = Some (preset ! n)
          \<and> compDice g = Some ((take n preset @ drop (Suc n) preset) ! 0))"

definition session_inv :: "(string \<Rightarrow> string \<Rightarrow> string) \<Rightarrow> game \<Rightarrow> bool" where
  "session_inv H g =
     (case rl g of
        Idle \<Rightarrow> False
      | Closed \<Rightarrow> (diceSet g = None \<and> userDice g = None \<and> compDice g = None)
                  \<or> fresh_pool g \<or> taken g
      | Waiting cb \<Rightarrow>
          (case cb of
             PromptUser \<Rightarrow> fresh_pool g \<and> (\<exists>c. compChoice g = Some c \<and> committed H g c)
           | ChooseDice \<Rightarrow> fresh_pool g
           | PlayRound c \<Rightarrow> taken g \<and> committed H g c
           | PlayRoundUser r c \<Rightarrow> taken g \<and> committed H g c))"

subsection \<open>An example run\<close>

text \<open>
  For the examples: a stand-in for the MAC, the random bytes \<open>0, 1, 2, \<dots>\<close>, draws
  of \<^verbatim>\<open>Math.random()\<close> that are all 0, and draws that are 0 the first time and
  \<open>1/2\<close> from then on; and a field of the state a run ends in.
\<close>

definition H0 :: "string \<Rightarrow> string \<Rightarrow> string" where
  "H0 k m = k @ '':'' @ m"

definition bytes0 :: "nat \<Rightarrow> 8 word" where
  "bytes0 i = of_nat i"

definition draws0 :: "nat \<Rightarrow> 53 word" where
  "draws0 i = 0"


definition field :: "(game \<Rightarrow> 'a) \<Rightarrow> error + game \<Rightarrow> 'a option" where
  "field f r = (case r of Inl e \<Rightarrow> None | Inr g \<Rightarrow> Some (f g))"

section \<open>Properties\<close>

subsection \<open>Rounding and remainders of integers\<close>

lemma log2i_bounds:
  "1 \<le> n \<Longrightarrow> 0 \<le> log2i n \<and> 2 ^ nat (log2i n) \<le> n \<and> n < 2 * 2 ^ nat (log2i n)"
proof (induction n rule: log2i.induct)
  case (1 n)
  show ?case
  proof (cases "n < 2")
    case True
    with "1.prems" have "n = 1" by simp
    then show ?thesis by (simp add: log2i.simps)
  next
    case False
    then have h: "1 \<le> n div 2" by simp
    from "1.IH" [OF False h]
    have ih: "0 \<le> log2i (n div 2)" "2 ^ nat (log2i (n div 2)) \<le> n div 2"
      "n div 2 < 2 * 2 ^ nat (log2i (n div 2))" by simp_all
    have e: "log2i n = 1 + log2i (n div 2)"
      using False by (subst log2i.simps) simp
    have p: "(2::int) ^ nat (1 + log2i (n div 2)) = 2 * 2 ^ nat (log2i (n div 2))"
      using ih(1) by (simp add: nat_add_distrib)
    show ?thesis
      using ih unfolding e p by auto
  qed
qed

lemma ilog2_of_int:
  assumes "1 \<le> n"
  shows "ilog2 (of_int n) = log2i n"
proof -
  from log2i_bounds [OF assms]
  have b: "0 \<le> log2i n" "2 ^ nat (log2i n) \<le> n" by simp_all
  have "(2::rat) ^ nat (log2i n) = of_int (2 ^ nat (log2i n))" by simp
  also have "\<dots> \<le> of_int n" using b(2) by (simp only: of_int_le_iff)
  finally have "pow2 (log2i n) \<le> of_int n"
    using b(1) by (simp add: pow2_def)
  then show ?thesis
    by (simp add: ilog2_def log2i.simps [of 1])
qed

lemma rne_of_int [simp]: "rne (of_int k) = k"
  by (simp add: rne_def)

lemma rne_ge:
  assumes "of_int k \<le> q"
  shows "k \<le> rne q"
proof -
  have "k \<le> \<lfloor>q\<rfloor>" using assms by (simp add: le_floor_iff)
  then show ?thesis by (simp add: rne_def Let_def)
qed

lemma fl_of_int_pos:
  assumes "1 \<le> n" "n \<le> 2 ^ 53"
  shows "fl (of_int n) = Fin (of_int n)"
proof -
  from log2i_bounds [OF assms(1)]
  have b: "0 \<le> log2i n" "2 ^ nat (log2i n) \<le> n" "n < 2 * 2 ^ nat (log2i n)" by simp_all
  define e where "e = nat (log2i n)"
  have le: "log2i n = int e" using b(1) by (simp add: e_def)
  have "(2::int) ^ e \<le> 2 ^ 53" using b(2) assms(2) unfolding e_def by (rule order_trans)
  then have e53: "e \<le> 53" by (rule power_le_imp_le_exp [rotated]) simp
  have il: "max (ilog2 (of_int n)) (- 1022) = int e"
    using ilog2_of_int [OF assms(1)] le by simp
  have small: "\<not> pow2 1024 \<le> (of_int n :: rat)"
  proof -
    have "(of_int n :: rat) \<le> of_int (2 ^ 53)" using assms(2) by (simp only: of_int_le_iff)
    also have "\<dots> < pow2 1024" by (simp add: pow2_def)
    finally show ?thesis by simp
  qed
  have v: "of_int (rne (of_int n / pow2 (int e - 52))) * pow2 (int e - 52) = (of_int n :: rat)"
  proof (cases "e \<le> 52")
    case True
    have p: "pow2 (int e - 52) = 1 / 2 ^ (52 - e)"
    proof (cases "e = 52")
      case True
      then show ?thesis by (simp add: pow2_def)
    next
      case False
      with \<open>e \<le> 52\<close> have "nat (- (int e - 52)) = 52 - e" "\<not> 0 \<le> int e - 52" by linarith+
      then show ?thesis by (simp only: pow2_def if_False)
    qed
    have "(of_int n :: rat) / (1 / 2 ^ (52 - e)) = of_int (n * 2 ^ (52 - e))" by simp
    then show ?thesis unfolding p by (simp only: rne_of_int) simp
  next
    case False
    with e53 have e: "e = 53" by simp
    with b(2) assms(2) have n: "n = 2 ^ 53" unfolding e_def [symmetric] by simp
    have "(of_int n :: rat) / pow2 (int e - 52) = of_int (2 ^ 52)"
      unfolding n e by (simp add: pow2_def)
    then show ?thesis unfolding n e by (simp only: rne_of_int) (simp add: pow2_def)
  qed
  show ?thesis
    using assms(1) small by (simp add: fl_def Let_def il v)
qed

lemma fl_of_int:
  assumes "\<bar>n\<bar> \<le> 2 ^ 53"
  shows "fl (of_int n) = Fin (of_int n)"
proof -
  consider "n = 0" | "1 \<le> n" | "n \<le> - 1" by linarith
  then show ?thesis
  proof cases
    case 1
    then show ?thesis by (simp add: fl_def)
  next
    case 2
    then show ?thesis using fl_of_int_pos [of n] assms by simp
  next
    case 3
    then have p: "1 \<le> - n" "- n \<le> 2 ^ 53" using assms by simp_all
    from fl_of_int_pos [OF p] have "fl (of_int (- n)) = Fin (of_int (- n))" .
    then show ?thesis using 3 by (simp add: fl_def Let_def split: if_splits)
  qed
qed

lemma trunc_div_nonneg:
  assumes "0 \<le> x" "0 < m"
  shows "trunc (of_int x / of_int m) = x div m"
  using assms by (simp add: trunc_def floor_divide_of_int_eq divide_less_0_iff)

lemma num_rem_int_nonneg:
  assumes "0 \<le> x" "0 < m"
  shows "num_rem (Fin (of_int x)) (Fin (of_int m)) = Fin (of_int (x mod m))"
proof -
  have "(of_int x :: rat) - of_int m * of_int (x div m) = of_int (x - m * (x div m))" by simp
  also have "x - m * (x div m) = x mod m" by (simp add: minus_mult_div_eq_mod)
  finally show ?thesis using assms by (simp add: trunc_div_nonneg)
qed


lemma fl_1 [simp]: "fl 1 = Fin 1"
  using fl_of_int [of 1] by simp

lemma fl_numeral [simp]: "numeral k \<le> (2 ^ 53 :: int) \<Longrightarrow> fl (numeral k) = Fin (numeral k)"
  using fl_of_int [of "numeral k"] by simp

lemma fl_neg_numeral [simp]:
  "numeral k \<le> (2 ^ 53 :: int) \<Longrightarrow> fl (- numeral k) = Fin (- numeral k)"
  using fl_of_int [of "- numeral k"] by simp

lemma fl_0 [simp]: "fl 0 = Fin 0"
  by (simp add: fl_def)

text \<open>
  Integers beyond \<open>2\<^sup>5\<^sup>3\<close> are rounded, to a value that is again an integer of at least
  \<open>2\<^sup>5\<^sup>3\<close>, or to an infinity.
\<close>

lemma fl_of_int_big:
  assumes "2 ^ 53 \<le> n"
  shows "fl (of_int n) = PosInf \<or> (\<exists>k. 2 ^ 53 \<le> k \<and> fl (of_int n) = Fin (of_int k))"
proof -
  have n1: "1 \<le> n" using assms by (rule order_trans [rotated]) simp
  from log2i_bounds [OF n1]
  have b: "0 \<le> log2i n" "2 ^ nat (log2i n) \<le> n" "n < 2 * 2 ^ nat (log2i n)" by simp_all
  define e where "e = nat (log2i n)"
  have le: "log2i n = int e" using b(1) by (simp add: e_def)
  have "(2::int) ^ 53 < 2 ^ Suc e" using assms b(3) unfolding e_def by simp
  then have "53 < Suc e" by (rule power_less_imp_less_exp [rotated]) simp
  then have e53: "53 \<le> e" by simp
  have il: "max (ilog2 (of_int n)) (- 1022) = int e"
    using ilog2_of_int [OF n1] le by simp
  have ne: "nat (int e - 52) = e - 52" "0 \<le> int e - 52" using e53 by linarith+
  have u: "pow2 (int e - 52) = of_int (2 ^ (e - 52))"
    using ne by (simp add: pow2_def)
  define k where "k = rne (of_int n / of_int (2 ^ (e - 52))) * 2 ^ (e - 52)"
  have "52 + (e - 52) = e" using e53 by simp
  then have "(2::int) ^ e = 2 ^ (52 + (e - 52))" by (simp only:)
  also have "\<dots> = 2 ^ 52 * 2 ^ (e - 52)" by (rule power_add)
  finally have pe2: "(2::int) ^ 52 * 2 ^ (e - 52) = 2 ^ e" by (rule sym)
  have be: "2 ^ e \<le> n" using b(2) by (simp add: e_def)
  have pe: "(2::int) ^ 52 * 2 ^ (e - 52) \<le> n" unfolding pe2 by (rule be)
  have "(of_int (2 ^ 52 * 2 ^ (e - 52)) :: rat) \<le> of_int n"
    using pe by (simp only: of_int_le_iff)
  then have "(of_int (2 ^ 52) :: rat) \<le> of_int n / of_int (2 ^ (e - 52))"
    by (simp add: pos_le_divide_eq)
  then have r: "2 ^ 52 \<le> rne (of_int n / of_int (2 ^ (e - 52)))" by (rule rne_ge)
  have "(2::int) ^ 52 * 2 ^ (e - 52) \<le> k"
    unfolding k_def using r by (rule mult_right_mono) simp
  then have "(2::int) ^ e \<le> k" unfolding pe2 .
  moreover have "(2::int) ^ 53 \<le> 2 ^ e" using e53 by (rule power_increasing) simp
  ultimately have k53: "2 ^ 53 \<le> k" by (rule order_trans [rotated])
  have v: "of_int (rne (of_int n / pow2 (int e - 52))) * pow2 (int e - 52) = (of_int k :: rat)"
    unfolding u k_def by (simp only: of_int_mult)
  have "fl (of_int n) = (if pow2 1024 \<le> (of_int k :: rat) then PosInf else Fin (of_int k))"
    using n1 by (simp add: fl_def Let_def il v)
  then show ?thesis using k53 by auto
qed

lemma fl_minus: "fl (- x) = num_neg (fl x)"
  by (simp add: fl_def Let_def)

lemma fl_of_int_above:
  assumes "6 \<le> n"
  shows "num_lt (Fin 5) (fl (of_int n))"
proof (cases "n \<le> 2 ^ 53")
  case True
  then have "fl (of_int n) = Fin (of_int n)" using assms fl_of_int [of n] by simp
  then show ?thesis using assms by simp
next
  case False
  then have "2 ^ 53 \<le> n" by simp
  from fl_of_int_big [OF this] show ?thesis
  proof
    assume "fl (of_int n) = PosInf"
    then show ?thesis by simp
  next
    assume "\<exists>k. 2 ^ 53 \<le> k \<and> fl (of_int n) = Fin (of_int k)"
    then obtain k where k: "2 ^ 53 \<le> k" "fl (of_int n) = Fin (of_int k)" by blast
    have "5 < k" using k(1) by simp
    then have "(5::rat) < of_int k" by simp
    then show ?thesis using k(2) by simp
  qed
qed

lemma fl_of_int_below:
  assumes "n \<le> - 1"
  shows "num_lt (fl (of_int n)) (Fin 0)"
proof -
  have f: "fl (of_int n) = num_neg (fl (of_int (- n)))"
    using fl_minus [of "of_int (- n)"] by simp
  show ?thesis
  proof (cases "- n \<le> 2 ^ 53")
    case True
    then have "fl (of_int (- n)) = Fin (of_int (- n))" using assms fl_of_int [of "- n"] by simp
    then show ?thesis unfolding f using assms by simp
  next
    case False
    then have "2 ^ 53 \<le> - n" by simp
    from fl_of_int_big [OF this] show ?thesis
    proof
      assume "fl (of_int (- n)) = PosInf"
      then show ?thesis unfolding f by simp
    next
      assume "\<exists>k. 2 ^ 53 \<le> k \<and> fl (of_int (- n)) = Fin (of_int k)"
      then obtain k where k: "2 ^ 53 \<le> k" "fl (of_int (- n)) = Fin (of_int k)" by blast
      have "0 < k" using k(1) by simp
      then have "(0::rat) < of_int k" by simp
      then show ?thesis unfolding f k(2) by simp
    qed
  qed
qed









lemma rne_numeral: "rne (numeral k) = numeral k"
  using rne_of_int [of "numeral k"] by simp

lemma log2i_power: "log2i (2 ^ n) = int n"
proof (induction n)
  case 0
  show ?case by (simp add: log2i.simps)
next
  case (Suc n)
  have "(1::int) \<le> 2 ^ n" by simp
  then have "(2::int) \<le> 2 * 2 ^ n" by linarith
  then have "\<not> (2::int) ^ Suc n < 2" by (simp only: power_Suc not_less)
  then have "log2i (2 ^ Suc n) = 1 + log2i (2 ^ Suc n div 2)"
    by (subst log2i.simps) (simp only: if_False)
  then show ?case using Suc by simp
qed

lemma fl_2_53_1: "fl (2 ^ 53 + 1) = Fin (2 ^ 53)"
proof -
  have "log2i (2 ^ 53 + 1) = 1 + log2i ((2 ^ 53 + 1) div 2)"
    by (subst log2i.simps) simp
  also have "((2::int) ^ 53 + 1) div 2 = 2 ^ 52" by simp
  finally have l: "log2i (2 ^ 53 + 1) = 53" using log2i_power [of 52] by simp
  have il: "ilog2 9007199254740993 = 53"
    using ilog2_of_int [of "2 ^ 53 + 1"] l by simp
  have f: "\<lfloor>9007199254740993 / 2 :: rat\<rfloor> = 4503599627370496"
    by (rule floor_unique) simp_all
  have r: "rne (9007199254740993 / 2) = 4503599627370496"
    by (simp add: rne_def Let_def f)
  have "fl 9007199254740993 = Fin 9007199254740992"
    by (simp add: fl_def Let_def il pow2_def r)
  then show ?thesis by simp
qed


lemma combine_inexact:
  "combine (Fin (2 ^ 53)) (Fin 1) (Fin 6) = Fin 2" "((2::int) ^ 53 + 1) mod 6 = 3"
proof -
  have "num_add (Fin (2 ^ 53)) (Fin 1) = Fin (of_int (2 ^ 53))"
    using fl_2_53_1 by (simp only: num_add.simps) simp
  then show "combine (Fin (2 ^ 53)) (Fin 1) (Fin 6) = Fin 2"
    using num_rem_int_nonneg [of "2 ^ 53" 6] by (simp add: combine_def)
  show "((2::int) ^ 53 + 1) mod 6 = 3" by simp
qed





subsection \<open>What each method does to the state\<close>

lemma generateRandomKey_eq:
  "generateRandomKey g = (key_at (csprng g) (cpos g), g\<lparr>cpos := cpos g + 32\<rparr>)"
  by (simp add: generateRandomKey_def randomBytes_def key_at_def)

lemma generateRandomNumber_eq:
  "generateRandomNumber r g = (number_at (csprng g) (cpos g) r, g\<lparr>cpos := cpos g + 4\<rparr>)"
  by (simp add: generateRandomNumber_def randomBytes_def number_at_def)

lemma roll_eq: "roll d g = (face_at (prng g) (ppos g) d, g\<lparr>ppos := Suc (ppos g)\<rparr>)"
  by (simp add: roll_def Math_random_def face_at_def)

lemma playRound_eq:
  "playRound H g =
     g\<lparr>key := Some (key_at (csprng g) (cpos g)),
       hmac := Some (H (key_at (csprng g) (cpos g))
                       (toString (number_at (csprng g) (cpos g + 32) (Fin 6)))),
       out := out g @ [''It's time for my roll.'',
                tag_line ''5'' (H (key_at (csprng g) (cpos g))
                                  (toString (number_at (csprng g) (cpos g + 32) (Fin 6)))),
                round_prompt],
       cpos := cpos g + 36,
       rl := Waiting (PlayRound (number_at (csprng g) (cpos g + 32) (Fin 6)))\<rparr>"
  by (cases g)
     (simp add: playRound_def Let_def generateRandomKey_eq generateRandomNumber_eq
        console_log_def rl_question_def generateHMAC_def show_string_def
        tag_line_def round_prompt_def)

lemma promptUser_eq:
  "promptUser g = g\<lparr>out := out g @ guess_menu, rl := Waiting PromptUser\<rparr>"
  by (cases g) (simp add: promptUser_def console_log_def rl_question_def guess_menu_def)

lemma construct_preset:
  "construct [[2, 2, 4, 4, 9, 9], [1, 1, 6, 6, 8, 8], [3, 3, 5, 5, 7, 7]] = Inr preset"
  by (simp add: Dice_def preset_def)

lemma startGame_valid:
  assumes "validateDiceInput (Some s) = Inr True"
  shows "startGame H g (Some s) =
     Inr (g\<lparr>diceSet := Some preset,
            key := Some (key_at (csprng g) (cpos g)),
            compChoice := Some (number_at (csprng g) (cpos g + 32) (Fin 2)),
            hmac := Some (H (key_at (csprng g) (cpos g))
                            (toString (number_at (csprng g) (cpos g + 32) (Fin 2)))),
            out := out g @ [''Let's determine who makes the first move.'',
                     tag_line ''1'' (H (key_at (csprng g) (cpos g))
                                       (toString (number_at (csprng g) (cpos g + 32) (Fin 2))))]
                   @ guess_menu,
            cpos := cpos g + 36,
            rl := Waiting PromptUser\<rparr>)"
  using assms
  by (cases g)
     (simp add: startGame_def construct_preset Let_def generateRandomKey_eq generateRandomNumber_eq
        console_log_def generateHMAC_def show_string_def tag_line_def promptUser_eq
        del: construct.simps)

lemma startGame_invalid:
  assumes "validateDiceInput (Some s) = Inr False"
  shows "startGame H g (Some s) =
     Inr (g\<lparr>out := out g @ [''Invalid input. Please provide at least 3 valid dice values.''],
            rl := Closed\<rparr>)"
  using assms by (cases g) (simp add: startGame_def console_log_def rl_close_def)

lemma foldl_console_log:
  "foldl (\<lambda>g (i, d). console_log (f i d) g) g xs = g\<lparr>out := out g @ map (\<lambda>(i, d). f i d) xs\<rparr>"
  by (induction xs arbitrary: g) (auto simp: console_log_def)

lemma chooseDice_eq:
  assumes "diceSet g = Some ds"
  shows "chooseDice g = Inr (g\<lparr>out := out g @ dice_menu ds, rl := Waiting ChooseDice\<rparr>)"
  using assms unfolding chooseDice_def Let_def foldl_console_log
  by (cases g) (simp add: console_log_def rl_question_def dice_menu_def)

lemma resolveFirstMove_eq:
  assumes "diceSet g = Some ds"
  shows "resolveFirstMove g userGuess =
     Inr (g\<lparr>out := out g @ first_move_lines g userGuess @ dice_menu ds,
            rl := Waiting ChooseDice\<rparr>)"
  using assms
  by (cases g)
     (simp add: resolveFirstMove_def Let_def chooseDice_eq console_log_def first_move_lines_def)

lemma trials_loop_eq:
  "\<exists>w. trials_loop n u c wins g = (w, g\<lparr>ppos := ppos g + 2 * n\<rparr>)"
proof (induction n arbitrary: wins g)
  case 0
  then show ?case by simp
next
  case (Suc n)
  show ?case
    using Suc [of "if roll_gt (face_at (prng g) (ppos g) u) (face_at (prng g) (Suc (ppos g)) c)
                   then Suc wins else wins" "g\<lparr>ppos := Suc (Suc (ppos g))\<rparr>"]
    by (simp add: roll_eq)
qed

lemma calculateWinProbability_eq:
  "\<exists>p. calculateWinProbability u c g = (p, g\<lparr>ppos := ppos g + 20000\<rparr>)"
  using trials_loop_eq [of 10000 u c 0 g] by (auto simp: calculateWinProbability_def)

lemma table_rows_eq:
  assumes "\<forall>(u, c) \<in> set pairs. u \<noteq> [] \<and> c \<noteq> []"
  shows "\<exists>t. table_rows pairs table g = Inr (t, g\<lparr>ppos := ppos g + 20000 * length pairs\<rparr>)"
  using assms
proof (induction pairs arbitrary: table g)
  case Nil
  then show ?case by simp
next
  case (Cons pc pairs)
  obtain u c where pc: "pc = (u, c)" by (cases pc)
  with Cons.prems have ne: "u \<noteq> []" "c \<noteq> []" and rest: "\<forall>(u, c) \<in> set pairs. u \<noteq> [] \<and> c \<noteq> []"
    by auto
  obtain p where p: "calculateWinProbability \<lparr>values' = u\<rparr> \<lparr>values' = c\<rparr> g
      = (p, g\<lparr>ppos := ppos g + 20000\<rparr>)"
    using calculateWinProbability_eq by blast
  from Cons.IH [OF rest, of _ "g\<lparr>ppos := ppos g + 20000\<rparr>"]
  show ?case using ne p by (simp add: pc Dice_def add.assoc)
qed

lemma displayHelp_eq:
  "\<exists>table. displayHelp g =
     Inr (g\<lparr>out := out g @ [''\<newline>Help: Here is the probability of winning for each dice pair ''
                              @ ''(custom dice and your dice):'', table] @ guess_menu,
            ppos := ppos g + 60000,
            rl := Waiting PromptUser\<rparr>)"
proof -
  let ?g = "console_log (''\<newline>Help: Here is the probability of winning for each dice pair ''
                 @ ''(custom dice and your dice):'') g"
  obtain t where t: "table_rows
             [([2, 2, 4, 4, 9, 9], [1, 1, 6, 6, 8, 8]),
              ([2, 2, 4, 4, 9, 9], [3, 3, 5, 5, 7, 7]),
              ([1, 1, 6, 6, 8, 8], [3, 3, 5, 5, 7, 7])]
             (''-----------------------------------------\<newline>''
              @ ''| User Dice        | Computer Dice   | Win Probability (%) |\<newline>''
              @ ''-----------------------------------------\<newline>'') ?g
       = Inr (t, ?g\<lparr>ppos := ppos ?g + 20000 * 3\<rparr>)"
    using table_rows_eq [of "[([2, 2, 4, 4, 9, 9], [1, 1, 6, 6, 8, 8]),
              ([2, 2, 4, 4, 9, 9], [3, 3, 5, 5, 7, 7]),
              ([1, 1, 6, 6, 8, 8], [3, 3, 5, 5, 7, 7])]" _ ?g] by auto
  show ?thesis
    apply (rule exI [of _ "t @ ''-----------------------------------------\<newline>''"])
    apply (cases g)
    using t
    apply (simp add: displayHelp_def generateProbabilityTable_def Let_def promptUser_eq
        console_log_def del: table_rows.simps)
    done
qed

lemma trunc_of_nat [simp]: "trunc (of_nat n) = int n"
  by (simp add: trunc_def)

lemma index_Some_iff:
  "index xs x = Some d \<longleftrightarrow> (\<exists>n < length xs. x = Fin (of_nat n) \<and> d = xs ! n)"
proof
  assume a: "index xs x = Some d"
  then obtain r where x: "x = Fin r" by (cases x) (simp_all add: index_def)
  from a x have r: "of_int \<lfloor>r\<rfloor> = r" "0 \<le> r" "r < of_nat (length xs)" "d = xs ! nat \<lfloor>r\<rfloor>"
    by (auto simp: index_def split: if_splits)
  have "r = of_nat (nat \<lfloor>r\<rfloor>)" using r(1,2) by (metis of_nat_nat zero_le_floor of_int_of_nat_eq)
  moreover from this r(3) have "nat \<lfloor>r\<rfloor> < length xs" by (metis of_nat_less_iff)
  ultimately show "\<exists>n < length xs. x = Fin (of_nat n) \<and> d = xs ! n"
    using x r(4) by blast
next
  assume "\<exists>n < length xs. x = Fin (of_nat n) \<and> d = xs ! n"
  then show "index xs x = Some d" by (auto simp: index_def)
qed

lemma index_of_nat: "index xs (Fin (of_nat n)) = (if n < length xs then Some (xs ! n) else None)"
  by (simp add: index_def)

lemma index_zero: "index xs (Fin 0) = (case xs of [] \<Rightarrow> None | x # _ \<Rightarrow> Some x)"
  by (simp add: index_def split: list.splits)

lemma splice_one:
  assumes "n < length xs"
  shows "splice xs (Fin (of_nat n)) 1 = ([xs ! n], take n xs @ drop (Suc n) xs)"
proof -
  have "take (Suc 0) (drop n xs) = [xs ! n]"
    using assms by (metis Cons_nth_drop_Suc take0 take_Suc_Cons)
  then show ?thesis using assms by (simp add: splice_def Let_def min_def)
qed

lemma splice_Suc_0:
  "n < length xs \<Longrightarrow> splice xs (Fin (of_nat n)) (Suc 0) = ([xs ! n], take n xs @ drop (Suc n) xs)"
  using splice_one [of n xs] by simp

lemma parseIntegerInput_eq:
  "parseIntegerInput input g =
     (case rejection input of
        Some m \<Rightarrow> (None, g\<lparr>out := out g @ [m]\<rparr>)
      | None \<Rightarrow> (Some (parseInt input), g))"
  by (simp add: parseIntegerInput_def rejection_def Let_def console_log_def)

lemma exit_eq:
  "rl_close (console_log ''Exiting game.'' g) = g\<lparr>out := out g @ [''Exiting game.''], rl := Closed\<rparr>"
  by (cases g) (simp add: rl_close_def console_log_def)

lemma playRound_answer_rejected:
  assumes "answer \<noteq> js ''X''" "answer \<noteq> js ''x''" "rejection answer = Some m"
  shows "playRound_answer H g c answer = Inr (playRound H (g\<lparr>out := out g @ [m]\<rparr>))"
  using assms by (simp add: playRound_answer_def parseIntegerInput_eq)

lemma playRound_userAnswer_rejected:
  assumes "answer \<noteq> js ''X''" "answer \<noteq> js ''x''" "rejection answer = Some m"
  shows "playRound_userAnswer H g r c answer = Inr (playRound H (g\<lparr>out := out g @ [m]\<rparr>))"
  using assms by (simp add: playRound_userAnswer_def parseIntegerInput_eq)

lemma playRound_answer_accepted:
  assumes "answer \<noteq> js ''X''" "answer \<noteq> js ''x''" "rejection answer = None"
    and "compDice g = Some d"
  shows "playRound_answer H g c answer =
     Inr (g\<lparr>key := Some (key_at (csprng g) (cpos g)),
            hmac := Some (H (key_at (csprng g) (cpos g))
                            (toString (number_at (csprng g) (cpos g + 32) (Fin 6)))),
            out := out g @
              [reveal_line c (show_string (key g)), fair_line c (parseInt answer),
               ''My roll result is '' @ show_roll (face_at (prng g) (ppos g) d) @ ''.'',
               ''Now it your turn.'',
               tag_line ''5'' (H (key_at (csprng g) (cpos g))
                                 (toString (number_at (csprng g) (cpos g + 32) (Fin 6)))),
               ''Your selection: ''],
            cpos := cpos g + 36,
            ppos := Suc (ppos g),
            rl := Waiting (PlayRoundUser (face_at (prng g) (ppos g) d)
                             (number_at (csprng g) (cpos g + 32) (Fin 6)))\<rparr>)"
  using assms
  by (cases g)
     (simp add: playRound_answer_def parseIntegerInput_eq Let_def roll_eq generateRandomKey_eq
        generateRandomNumber_eq console_log_def rl_question_def generateHMAC_def show_string_def
        tag_line_def reveal_line_def fair_line_def)

lemma playRound_userAnswer_accepted:
  assumes "answer \<noteq> js ''X''" "answer \<noteq> js ''x''" "rejection answer = None"
    and "userDice g = Some d"
  shows "playRound_userAnswer H g r c answer =
     Inr (g\<lparr>out := out g @
              [reveal_line c (show_string (key g)), fair_line c (parseInt answer),
               ''Your roll result is '' @ show_roll (face_at (prng g) (ppos g) d) @ ''.'',
               outcome_line (face_at (prng g) (ppos g) d) r],
            ppos := Suc (ppos g),
            rl := Closed\<rparr>)"
  using assms
  by (cases g)
     (simp add: playRound_userAnswer_def parseIntegerInput_eq Let_def roll_eq
        console_log_def rl_close_def show_string_def reveal_line_def fair_line_def
        outcome_line_def)

lemma chooseDice_answer_valid:
  assumes "answer \<noteq> js ''X''" "answer \<noteq> js ''x''"
    and "diceSet g = Some ds" "parseInt answer = Fin (of_nat n)" "n < length ds"
  shows "chooseDice_answer H g answer =
     Inr (playRound H
            (g\<lparr>diceSet := Some (take n ds @ drop (Suc n) ds),
               userDice := Some (ds ! n),
               compDice := index (take n ds @ drop (Suc n) ds) (Fin 0),
               out := out g @ [''You choose the ['' @ values_join (ds ! n) '','' @ ''] dice.'']\<rparr>))"
  using assms
  by (cases g)
     (simp add: chooseDice_answer_def isValidDiceChoice_def isNaN_def index_of_nat splice_Suc_0
        index_zero Let_def console_log_def)

lemma chooseDice_answer_invalid:
  assumes "answer \<noteq> js ''X''" "answer \<noteq> js ''x''"
    and "diceSet g = Some ds" "index ds (parseInt answer) = None"
  shows "chooseDice_answer H g answer =
     Inr (g\<lparr>out := out g @ ''Invalid input. Please enter a valid dice index, X, or ?.''
                         # dice_menu ds,
            rl := Waiting ChooseDice\<rparr>)"
  using assms
  by (cases g)
     (simp add: chooseDice_answer_def isValidDiceChoice_def isNaN_def Let_def chooseDice_eq
        console_log_def)

lemma num_rem_nat:
  assumes "0 < m"
  shows "num_rem (Fin (of_nat w)) (Fin (of_nat m)) = Fin (of_nat (w mod m))"
proof -
  have "num_rem (Fin (of_int (int w))) (Fin (of_int (int m))) = Fin (of_int (int w mod int m))"
    using assms by (intro num_rem_int_nonneg) simp_all
  moreover have "int w mod int m = int (w mod m)" by (simp add: zmod_int)
  ultimately show ?thesis by (simp only: of_int_of_nat_eq)
qed

lemma number_at_range:
  assumes "0 < m"
  shows "\<exists>n < m. number_at bytes p (Fin (of_nat m)) = Fin (of_nat n)"
proof -
  obtain w where w: "readUInt32BE (map bytes [p ..< p + 4]) = Fin (of_nat w)"
    by (simp add: readUInt32BE_def)
  have "number_at bytes p (Fin (of_nat m)) = Fin (of_nat (w mod m))"
    unfolding number_at_def w using assms by (rule num_rem_nat)
  moreover have "w mod m < m" using assms by simp
  ultimately show ?thesis by blast
qed

lemma number_at_6: "\<exists>n < 6. number_at bytes p (Fin 6) = Fin (of_nat n)"
  using number_at_range [of 6 bytes p] by simp

lemma number_at_2: "\<exists>n < 6. number_at bytes p (Fin 2) = Fin (of_nat n)"
proof -
  from number_at_range [of 2 bytes p]
  obtain n where "n < 2" "number_at bytes p (Fin 2) = Fin (of_nat n)" by auto
  then show ?thesis by (intro exI [of _ n]) simp
qed

lemma toString_digit:
  assumes "n < 10"
  shows "toString (Fin (of_nat n)) = [''0123456789'' ! n]"
  using assms by (simp add: toString_def digits10.simps [of n])

lemma preset_taken_compDice:
  "n < 3 \<Longrightarrow> index (take n preset @ drop (Suc n) preset) (Fin 0)
     = Some ((take n preset @ drop (Suc n) preset) ! 0)"
  by (cases n; simp add: preset_def index_zero; cases "n - 1"; simp; cases "n - 2"; simp)

lemma committed_playRound:
  "committed H (playRound H g) (number_at (csprng g) (cpos g + 32) (Fin 6))"
  using number_at_6 [of "csprng g" "cpos g + 32"]
  by (auto simp: committed_def playRound_eq)

lemma taken_playRound: "taken (playRound H g) = taken g"
  by (simp add: taken_def playRound_eq)

lemma inv_playRound: "taken g \<Longrightarrow> session_inv H (playRound H g)"
  using committed_playRound [of H g] taken_playRound [of H g]
  by (simp add: session_inv_def playRound_eq)

lemma committed_mono:
  assumes "committed H g v" "key g' = key g" "hmac g' = hmac g" "set (out g) \<subseteq> set (out g')"
  shows "committed H g' v"
  using assms unfolding committed_def by (fastforce dest: subsetD)

lemma validateDiceInput_Some: "\<exists>b. validateDiceInput (Some s) = Inr b"
  by (simp add: validateDiceInput_def Let_def)

lemma inv_start:
  assumes "startGame H (DiceGame bytes draws) diceInput = Inr g"
  shows "session_inv H g"
proof (cases diceInput)
  case None
  with assms show ?thesis by (simp add: startGame_def validateDiceInput_def)
next
  case (Some s)
  obtain b where b: "validateDiceInput (Some s) = Inr b"
    using validateDiceInput_Some by blast
  show ?thesis
  proof (cases b)
    case True
    obtain n where n: "n < 6" "number_at bytes 32 (Fin 2) = Fin (of_nat n)"
      using number_at_2 by blast
    from assms Some b True have "g = (DiceGame bytes draws)
           \<lparr>diceSet := Some preset,
            key := Some (key_at bytes 0),
            compChoice := Some (number_at bytes 32 (Fin 2)),
            hmac := Some (H (key_at bytes 0) (toString (number_at bytes 32 (Fin 2)))),
            out := [''Let's determine who makes the first move.'',
                     tag_line ''1'' (H (key_at bytes 0) (toString (number_at bytes 32 (Fin 2))))]
                   @ guess_menu,
            cpos := 36,
            rl := Waiting PromptUser\<rparr>"
      by (simp add: startGame_valid) (simp add: DiceGame_def)
    then show ?thesis
      using n by (simp add: session_inv_def fresh_pool_def committed_def DiceGame_def)
  next
    case False
    with assms Some b show ?thesis
      by (auto simp: startGame_invalid session_inv_def DiceGame_def)
  qed
qed

lemma inv_promptUser_answer:
  assumes "session_inv H g" "rl g = Waiting PromptUser"
    and "promptUser_answer (g\<lparr>rl := Idle\<rparr>) answer = Inr g'"
  shows "session_inv H g'"
proof -
  from assms(1,2) obtain c where
    f: "fresh_pool g" and c: "compChoice g = Some c" "committed H g c"
    by (auto simp: session_inv_def)
  from f have ds: "diceSet (g\<lparr>rl := Idle\<rparr>) = Some preset" by (simp add: fresh_pool_def)
  consider (quit) "answer = js ''X'' \<or> answer = js ''x''"
    | (query) "\<not> (answer = js ''X'' \<or> answer = js ''x'')" "answer = js ''?''"
    | (guess) "\<not> (answer = js ''X'' \<or> answer = js ''x'')" "answer \<noteq> js ''?''"
        "answer = js ''0'' \<or> answer = js ''1''"
    | (other) "\<not> (answer = js ''X'' \<or> answer = js ''x'')" "answer \<noteq> js ''?''"
        "\<not> (answer = js ''0'' \<or> answer = js ''1'')"
    by blast
  then show ?thesis
  proof cases
    case quit
    with assms(3) have "g' = g\<lparr>out := out g @ [''Exiting game.''], rl := Closed\<rparr>"
      by (simp add: promptUser_answer_def exit_eq)
    then show ?thesis using f by (simp add: session_inv_def fresh_pool_def)
  next
    case query
    obtain table where "displayHelp (g\<lparr>rl := Idle\<rparr>) =
       Inr (g\<lparr>rl := Idle\<rparr>\<lparr>out := out (g\<lparr>rl := Idle\<rparr>)
              @ [''\<newline>Help: Here is the probability of winning for each dice pair ''
                              @ ''(custom dice and your dice):'', table] @ guess_menu,
            ppos := ppos (g\<lparr>rl := Idle\<rparr>) + 60000,
            rl := Waiting PromptUser\<rparr>)"
      using displayHelp_eq by blast
    with query assms(3) have g': "g' = g\<lparr>out := out g
              @ [''\<newline>Help: Here is the probability of winning for each dice pair ''
                              @ ''(custom dice and your dice):'', table] @ guess_menu,
            ppos := ppos g + 60000, rl := Waiting PromptUser\<rparr>"
      by (simp add: promptUser_answer_def)
    have "committed H g' c" using c(2) by (rule committed_mono) (auto simp: g')
    then show ?thesis using f c(1) by (simp add: session_inv_def fresh_pool_def g')
  next
    case guess
    with assms(3) have "g' = g\<lparr>out := out g @ first_move_lines (g\<lparr>rl := Idle\<rparr>) (parseInt answer)
          @ dice_menu preset, rl := Waiting ChooseDice\<rparr>"
      by (simp add: promptUser_answer_def resolveFirstMove_eq [OF ds])
    then show ?thesis using f by (simp add: session_inv_def fresh_pool_def)
  next
    case other
    with assms(3) have g': "g' = g\<lparr>out := out g @ ''Invalid input. Please enter 0, 1, X, or ?.''
          # guess_menu, rl := Waiting PromptUser\<rparr>"
      by (simp add: promptUser_answer_def promptUser_eq console_log_def)
    have "committed H g' c" using c(2) by (rule committed_mono) (auto simp: g')
    then show ?thesis using f c(1) by (simp add: session_inv_def fresh_pool_def g')
  qed
qed

lemma index_preset:
  "index preset x = Some d \<Longrightarrow> \<exists>n. n < 3 \<and> x = Fin (of_nat n) \<and> d = preset ! n"
  by (auto simp: index_Some_iff preset_def)

lemma inv_chooseDice_answer:
  assumes "session_inv H g" "rl g = Waiting ChooseDice"
    and "chooseDice_answer H (g\<lparr>rl := Idle\<rparr>) answer = Inr g'"
  shows "session_inv H g'"
proof -
  from assms(1,2) have f: "fresh_pool g" by (simp add: session_inv_def)
  then have ds: "diceSet (g\<lparr>rl := Idle\<rparr>) = Some preset" by (simp add: fresh_pool_def)
  show ?thesis
  proof (cases "answer = js ''X'' \<or> answer = js ''x''")
    case True
    with assms(3) have "g' = g\<lparr>out := out g @ [''Exiting game.''], rl := Closed\<rparr>"
      by (simp add: chooseDice_answer_def exit_eq)
    then show ?thesis using f by (simp add: session_inv_def fresh_pool_def)
  next
    case False
    then have nx: "answer \<noteq> js ''X''" "answer \<noteq> js ''x''" by simp_all
    show ?thesis
    proof (cases "index preset (parseInt answer)")
      case None
      from assms(3) have "g' = g\<lparr>out := out g
            @ ''Invalid input. Please enter a valid dice index, X, or ?.'' # dice_menu preset,
            rl := Waiting ChooseDice\<rparr>"
        by (simp add: chooseDice_answer_invalid [OF nx ds None])
      then show ?thesis using f by (simp add: session_inv_def fresh_pool_def)
    next
      case (Some d)
      then obtain n where n: "n < 3" "parseInt answer = Fin (of_nat n)"
        using index_preset by blast
      then have len: "n < length preset" by (simp add: preset_def)
      let ?g = "g\<lparr>rl := Idle\<rparr>\<lparr>diceSet := Some (take n preset @ drop (Suc n) preset),
               userDice := Some (preset ! n),
               compDice := index (take n preset @ drop (Suc n) preset) (Fin 0),
               out := out (g\<lparr>rl := Idle\<rparr>)
                 @ [''You choose the ['' @ values_join (preset ! n) '','' @ ''] dice.'']\<rparr>"
      from assms(3) have g': "g' = playRound H ?g"
        by (simp add: chooseDice_answer_valid [OF nx ds n(2) len])
      have "taken ?g"
        using n(1) by (auto simp: taken_def preset_taken_compDice)
      then show ?thesis unfolding g' by (rule inv_playRound)
    qed
  qed
qed

lemma taken_compDice: "taken g \<Longrightarrow> \<exists>d. compDice g = Some d"
  by (auto simp: taken_def)

lemma taken_userDice: "taken g \<Longrightarrow> \<exists>d. userDice g = Some d"
  by (auto simp: taken_def)

lemma taken_out [simp]: "taken (g\<lparr>out := x\<rparr>) = taken g"
  by (simp add: taken_def)

lemma taken_rl [simp]: "taken (g\<lparr>rl := x\<rparr>) = taken g"
  by (simp add: taken_def)

lemma inv_playRound_answer:
  assumes "session_inv H g" "rl g = Waiting (PlayRound c)"
    and "playRound_answer H (g\<lparr>rl := Idle\<rparr>) c answer = Inr g'"
  shows "session_inv H g'"
proof -
  from assms(1,2) have t: "taken g" and cm: "committed H g c" by (simp_all add: session_inv_def)
  show ?thesis
  proof (cases "answer = js ''X'' \<or> answer = js ''x''")
    case True
    with assms(3) have "g' = g\<lparr>out := out g @ [''Exiting game.''], rl := Closed\<rparr>"
      by (simp add: playRound_answer_def exit_eq)
    then show ?thesis using t by (simp add: session_inv_def)
  next
    case False
    then have nx: "answer \<noteq> js ''X''" "answer \<noteq> js ''x''" by simp_all
    show ?thesis
    proof (cases "rejection answer")
      case (Some m)
      from assms(3) have "g' = playRound H (g\<lparr>rl := Idle\<rparr>\<lparr>out := out (g\<lparr>rl := Idle\<rparr>) @ [m]\<rparr>)"
        by (simp add: playRound_answer_rejected [OF nx Some])
      then show ?thesis using t by (simp add: inv_playRound)
    next
      case None
      obtain d where d: "compDice (g\<lparr>rl := Idle\<rparr>) = Some d" using taken_compDice [OF t] by auto
      obtain n where n: "n < 6" "number_at (csprng g) (cpos g + 32) (Fin 6) = Fin (of_nat n)"
        using number_at_6 by blast
      from assms(3) show ?thesis
        unfolding playRound_answer_accepted [OF nx None d]
        using t n by (auto simp: session_inv_def taken_def committed_def)
    qed
  qed
qed

lemma inv_playRound_userAnswer:
  assumes "session_inv H g" "rl g = Waiting (PlayRoundUser r c)"
    and "playRound_userAnswer H (g\<lparr>rl := Idle\<rparr>) r c answer = Inr g'"
  shows "session_inv H g'"
proof -
  from assms(1,2) have t: "taken g" and cm: "committed H g c" by (simp_all add: session_inv_def)
  show ?thesis
  proof (cases "answer = js ''X'' \<or> answer = js ''x''")
    case True
    with assms(3) have "g' = g\<lparr>out := out g @ [''Exiting game.''], rl := Closed\<rparr>"
      by (simp add: playRound_userAnswer_def exit_eq)
    then show ?thesis using t by (simp add: session_inv_def)
  next
    case False
    then have nx: "answer \<noteq> js ''X''" "answer \<noteq> js ''x''" by simp_all
    show ?thesis
    proof (cases "rejection answer")
      case (Some m)
      from assms(3) have "g' = playRound H (g\<lparr>rl := Idle\<rparr>\<lparr>out := out (g\<lparr>rl := Idle\<rparr>) @ [m]\<rparr>)"
        by (simp add: playRound_userAnswer_rejected [OF nx Some])
      then show ?thesis using t by (simp add: inv_playRound)
    next
      case None
      obtain d where d: "userDice (g\<lparr>rl := Idle\<rparr>) = Some d" using taken_userDice [OF t] by auto
      from assms(3) show ?thesis
        unfolding playRound_userAnswer_accepted [OF nx None d]
        using t by (auto simp: session_inv_def taken_def)
    qed
  qed
qed

lemma inv_on_line:
  assumes "session_inv H g" "on_line H g answer = Inr g'"
  shows "session_inv H g'"
proof (cases "rl g")
  case Idle
  with assms show ?thesis by (simp add: on_line_def)
next
  case Closed
  with assms show ?thesis by (simp add: on_line_def)
next
  case (Waiting cb)
  show ?thesis
  proof (cases cb)
    case PromptUser
    with Waiting assms show ?thesis
      by (auto simp: on_line_def intro: inv_promptUser_answer)
  next
    case ChooseDice
    with Waiting assms show ?thesis
      by (auto simp: on_line_def intro: inv_chooseDice_answer)
  next
    case (PlayRound c)
    with Waiting assms show ?thesis
      by (auto simp: on_line_def intro: inv_playRound_answer)
  next
    case (PlayRoundUser r c)
    with Waiting assms show ?thesis
      by (auto simp: on_line_def intro: inv_playRound_userAnswer)
  qed
qed

lemma reachable_inv: "reachable H g \<Longrightarrow> session_inv H g"
  by (induction rule: reachable.induct) (auto intro: inv_start inv_on_line)

subsection \<open>Start of the game\<close>

lemma lines_closed: "rl g = Closed \<Longrightarrow> lines H (Inr g) answers = Inr g"
  by (induction answers) (simp_all add: on_line_def)

lemma lines_thrown: "lines H (Inl e) answers = Inl e"
  by (cases answers) simp_all

lemma validate_filter:
  assumes "length (filter (\<lambda>val. \<not> isNaN (parseInt (trim val)) \<and> isInteger (parseInt (trim val)))
             (split s 0x2C)) < 3"
  shows "validateDiceInput (Some s) = Inr False"
proof -
  let ?P = "\<lambda>val. \<not> isNaN (parseInt (trim val)) \<and> isInteger (parseInt (trim val))"
  have "\<not> (3 \<le> length (split s 0x2C) \<and> list_all ?P (split s 0x2C))"
  proof
    assume a: "3 \<le> length (split s 0x2C) \<and> list_all ?P (split s 0x2C)"
    then have "filter ?P (split s 0x2C) = split s 0x2C"
      by (simp add: list_all_iff)
    with a assms show False by simp
  qed
  then show ?thesis
    by (simp add: validateDiceInput_def Let_def list_all_iff)
qed

text \<open>
  Claim C8: a startup input with fewer than three comma-separated values that
  \<^verbatim>\<open>parseInt\<close> reads as integers ends the session with the validation message and the
  interface closed, before anything else happens: no dice set, no key, no committed
  value and no tag exist, no randomness has been drawn, and further input lines change
  nothing.
\<close>

theorem startGame_rejects_short_input:
  assumes "length (filter (\<lambda>val. \<not> isNaN (parseInt (trim val)) \<and> isInteger (parseInt (trim val)))
             (split s 0x2C)) < 3"
  shows "main H bytes draws (Some s) answers =
           Inr \<lparr>rl = Closed, diceSet = None, userDice = None, compDice = None, key = None,
                compChoice = None, hmac = None,
                out = [''Invalid input. Please provide at least 3 valid dice values.''],
                csprng = bytes, cpos = 0, prng = draws, ppos = 0\<rparr>"
  using validate_filter [OF assms]
  by (simp add: main_def startGame_def lines_closed rl_close_def console_log_def DiceGame_def)

theorem startGame_rejects_short_input_witness:
  "main (\<lambda>k m. k @ m) (\<lambda>i. 0) (\<lambda>i. 0) (Some (js ''1,2'')) [js ''0''] =
           Inr \<lparr>rl = Closed, diceSet = None, userDice = None, compDice = None, key = None,
                compChoice = None, hmac = None,
                out = [''Invalid input. Please provide at least 3 valid dice values.''],
                csprng = (\<lambda>i. 0), cpos = 0, prng = (\<lambda>i. 0), ppos = 0\<rparr>"
  by (rule startGame_rejects_short_input) (simp add: js_def)

text \<open>
  Claim C10: with no command-line argument \<^verbatim>\<open>startGame\<close> receives \<^verbatim>\<open>undefined\<close>, and
  \<^verbatim>\<open>validateDiceInput\<close> throws a \<^verbatim>\<open>TypeError\<close> on \<^verbatim>\<open>input.split\<close> that nothing
  catches, instead of printing the validation message; for every string \<^verbatim>\<open>startGame\<close>
  returns normally.
\<close>

theorem startGame_undefined_throws:
  "startGame H g None = Inl (undefined_read ''split'')
   \<and> main H bytes draws None answers = Inl (undefined_read ''split'')
   \<and> (\<forall>s. \<exists>g'. startGame H g (Some s) = Inr g')"
proof -
  have "startGame H g' None = Inl (undefined_read ''split'')" for g'
    by (simp add: startGame_def validateDiceInput_def)
  moreover have "\<exists>g'. startGame H g (Some s) = Inr g'" for s
    by (simp add: startGame_def validateDiceInput_def Dice_def Let_def split: prod.splits)
  ultimately show ?thesis by (simp add: main_def lines_thrown)
qed



subsection \<open>Evaluating the input functions\<close>

lemmas parse_defs =
  js_def trimStart_def trim_def isWhiteSpace_def isDigit_def digitOf_def isRadixDigit_def
  radixVal_def parseInt_def expPart_def scanUnsigned_def scanDecimal_def parseFloat_def
  nonDecimal_def StringToNumber_def isNaN_def isInteger_def includes'_def Let_def

lemma parseInt_examples:
  "parseInt (js ''0'') = Fin 0" "parseInt (js ''1'') = Fin 1" "parseInt (js ''3'') = Fin 3"
  "parseInt (js ''1abc'') = Fin 1" "parseInt (js ''0.5'') = Fin 0" "parseInt (js ''1,2'') = Fin 1"
  "parseInt (js ''abc'') = NaN" "parseInt (js ''7'') = Fin 7"
  by (simp_all add: parse_defs)

lemma rejection_examples:
  "rejection (js ''abc'') = Some ''Invalid input. Please enter a valid number (no commas) between 0 and 5.''"
  "rejection (js ''1,2'') = Some ''Invalid input. Please enter a valid number (no commas) between 0 and 5.''"
  "rejection (js ''7'') = Some ''Invalid input. Please enter a number between 0 and 5.''"
  "rejection (js ''3'') = None"
  "rejection (js ''2'') = None"
  by (simp_all add: rejection_def parse_defs)

text \<open>
  An input that is a number and an integer for \<^verbatim>\<open>isNaN\<close> and \<^verbatim>\<open>parseFloat\<close> but has no
  leading digit for \<^verbatim>\<open>parseInt\<close> passes both range tests as NaN, and
  \<^verbatim>\<open>parseIntegerInput\<close> returns NaN for it.
\<close>

lemma parseIntegerInput_NaN: "parseIntegerInput (js ''.0'') g = (Some NaN, g)"
  by (simp add: parseIntegerInput_def parse_defs)

lemma validate_123: "validateDiceInput (Some (js ''1,2,3'')) = Inr True"
  by (simp add: validateDiceInput_def parse_defs)

lemma js_neq_examples:
  "js ''0'' \<noteq> js ''X''" "js ''0'' \<noteq> js ''x''" "js ''0'' \<noteq> js ''?''"
  "js ''abc'' \<noteq> js ''X''" "js ''abc'' \<noteq> js ''x''"
  "js ''1abc'' \<noteq> js ''X''" "js ''1abc'' \<noteq> js ''x''"
  "js ''3'' \<noteq> js ''X''" "js ''3'' \<noteq> js ''x''"
  "js ''2'' \<noteq> js ''X''" "js ''2'' \<noteq> js ''x''"
  by (simp_all add: js_def)

subsection \<open>Runs of the program\<close>

lemma lines_snoc:
  "lines H r (xs @ [x]) = (case lines H r xs of Inl e \<Rightarrow> Inl e | Inr g \<Rightarrow> on_line H g x)"
proof (induction xs arbitrary: r)
  case Nil
  show ?case by (cases r) simp_all
next
  case (Cons a xs)
  show ?case by (cases r) (simp_all add: Cons.IH)
qed

lemma reachable_main:
  "main H bytes draws diceInput answers = Inr g \<Longrightarrow> reachable H g"
proof (induction answers arbitrary: g rule: rev_induct)
  case Nil
  then show ?case by (auto simp: main_def intro: reachable.start)
next
  case (snoc x xs)
  then show ?case
    by (auto simp: main_def lines_snoc split: sum.splits intro: reachable.step)
qed

lemma main_snoc:
  "main H bytes draws diceInput xs = Inr g \<Longrightarrow>
   main H bytes draws diceInput (xs @ [x]) = on_line H g x"
  by (simp add: main_def lines_snoc)

lemma run_start:
  "main H bytes draws (Some (js ''1,2,3'')) [] =
     Inr ((DiceGame bytes draws)
            \<lparr>diceSet := Some preset,
             key := Some (key_at bytes 0),
             compChoice := Some (number_at bytes 32 (Fin 2)),
             hmac := Some (H (key_at bytes 0) (toString (number_at bytes 32 (Fin 2)))),
             out := [''Let's determine who makes the first move.'',
                     tag_line ''1'' (H (key_at bytes 0) (toString (number_at bytes 32 (Fin 2))))]
                    @ guess_menu,
             cpos := 36,
             rl := Waiting PromptUser\<rparr>)"
  by (simp add: main_def startGame_valid [OF validate_123]) (simp add: DiceGame_def)

lemma run_guess:
  "\<exists>g. main H bytes draws (Some (js ''1,2,3'')) [js ''0''] = Inr g
       \<and> rl g = Waiting ChooseDice \<and> diceSet g = Some preset \<and> userDice g = None
       \<and> compDice g = None \<and> csprng g = bytes \<and> cpos g = 36 \<and> prng g = draws \<and> ppos g = 0"
proof -
  have "main H bytes draws (Some (js ''1,2,3'')) ([] @ [js ''0'']) = on_line H
     ((DiceGame bytes draws)
            \<lparr>diceSet := Some preset,
             key := Some (key_at bytes 0),
             compChoice := Some (number_at bytes 32 (Fin 2)),
             hmac := Some (H (key_at bytes 0) (toString (number_at bytes 32 (Fin 2)))),
             out := [''Let's determine who makes the first move.'',
                     tag_line ''1'' (H (key_at bytes 0) (toString (number_at bytes 32 (Fin 2))))]
                    @ guess_menu,
             cpos := 36,
             rl := Waiting PromptUser\<rparr>) (js ''0'')"
    by (rule main_snoc) (rule run_start)
  then show ?thesis
    by (simp add: on_line_def promptUser_answer_def js_neq_examples resolveFirstMove_def
        chooseDice_eq Let_def console_log_def DiceGame_def)
qed

lemma run_choice:
  "\<exists>g. main H bytes draws (Some (js ''1,2,3'')) [js ''0'', js ''0''] = Inr g
       \<and> rl g = Waiting (PlayRound (number_at bytes 68 (Fin 6)))
       \<and> diceSet g = Some [\<lparr>values' = [1, 1, 6, 6, 8, 8]\<rparr>, \<lparr>values' = [3, 3, 5, 5, 7, 7]\<rparr>]
       \<and> userDice g = Some \<lparr>values' = [2, 2, 4, 4, 9, 9]\<rparr>
       \<and> compDice g = Some \<lparr>values' = [1, 1, 6, 6, 8, 8]\<rparr>
       \<and> key g = Some (key_at bytes 36)
       \<and> hmac g = Some (H (key_at bytes 36) (toString (number_at bytes 68 (Fin 6))))
       \<and> csprng g = bytes \<and> cpos g = 72 \<and> prng g = draws \<and> ppos g = 0"
proof -
  obtain g where g: "main H bytes draws (Some (js ''1,2,3'')) [js ''0''] = Inr g"
    "rl g = Waiting ChooseDice" "diceSet g = Some preset" "csprng g = bytes" "cpos g = 36"
    "prng g = draws" "ppos g = 0"
    using run_guess [of H bytes draws] by blast
  have ds: "diceSet (g\<lparr>rl := Idle\<rparr>) = Some preset" using g(3) by simp
  have p: "parseInt (js ''0'') = Fin (of_nat 0)" by (simp add: parseInt_examples)
  have len: "0 < length preset" by (simp add: preset_def)
  have "main H bytes draws (Some (js ''1,2,3'')) ([js ''0''] @ [js ''0'']) = on_line H g (js ''0'')"
    using g(1) by (rule main_snoc)
  then show ?thesis
    using g(2-)
    by (simp add: on_line_def chooseDice_answer_valid [OF js_neq_examples(1,2) ds p len]
        playRound_eq preset_def index_zero)
qed

lemma run_round:
  "\<exists>g. main H bytes draws (Some (js ''1,2,3'')) [js ''0'', js ''0'', js ''3''] = Inr g
       \<and> rl g = Waiting (PlayRoundUser (face_at draws 0 \<lparr>values' = [1, 1, 6, 6, 8, 8]\<rparr>)
                           (number_at bytes 104 (Fin 6)))
       \<and> diceSet g = Some [\<lparr>values' = [1, 1, 6, 6, 8, 8]\<rparr>, \<lparr>values' = [3, 3, 5, 5, 7, 7]\<rparr>]
       \<and> userDice g = Some \<lparr>values' = [2, 2, 4, 4, 9, 9]\<rparr>
       \<and> compDice g = Some \<lparr>values' = [1, 1, 6, 6, 8, 8]\<rparr>
       \<and> key g = Some (key_at bytes 72)
       \<and> csprng g = bytes \<and> cpos g = 108 \<and> prng g = draws \<and> ppos g = 1"
proof -
  obtain g where g: "main H bytes draws (Some (js ''1,2,3'')) [js ''0'', js ''0''] = Inr g"
    "rl g = Waiting (PlayRound (number_at bytes 68 (Fin 6)))"
    "diceSet g = Some [\<lparr>values' = [1, 1, 6, 6, 8, 8]\<rparr>, \<lparr>values' = [3, 3, 5, 5, 7, 7]\<rparr>]"
    "userDice g = Some \<lparr>values' = [2, 2, 4, 4, 9, 9]\<rparr>"
    "compDice g = Some \<lparr>values' = [1, 1, 6, 6, 8, 8]\<rparr>"
    "csprng g = bytes" "cpos g = 72" "prng g = draws" "ppos g = 0"
    using run_choice [of H bytes draws] by blast
  have d: "compDice (g\<lparr>rl := Idle\<rparr>) = Some \<lparr>values' = [1, 1, 6, 6, 8, 8]\<rparr>"
    using g(5) by simp
  have "main H bytes draws (Some (js ''1,2,3'')) ([js ''0'', js ''0''] @ [js ''3''])
      = on_line H g (js ''3'')"
    using g(1) by (rule main_snoc)
  then show ?thesis
    using g(2-)
    by (simp add: on_line_def
        playRound_answer_accepted [OF js_neq_examples(8,9) rejection_examples(4) d])
qed

lemma face_at_draws0: "d \<noteq> [] \<Longrightarrow> face_at draws0 p \<lparr>values' = d\<rparr> = Some (d ! 0)"
  by (cases d) (simp_all add: face_at_def draws0_def index_def)

subsection \<open>Invalid input during a round\<close>

lemma phase_RollExchange:
  "phase_of g = RollExchange \<longleftrightarrow>
     (\<exists>c. rl g = Waiting (PlayRound c)) \<or> (\<exists>r c. rl g = Waiting (PlayRoundUser r c))"
  by (auto simp: phase_of_def split: readline.splits callback.splits)


lemma rejected_iff: "fst (parseIntegerInput answer g) = None \<longleftrightarrow> (\<exists>m. rejection answer = Some m)"
  by (auto simp: parseIntegerInput_eq split: option.splits)

lemma accepted_iff:
  "fst (parseIntegerInput answer g) = Some x \<longleftrightarrow> rejection answer = None \<and> x = parseInt answer"
  by (auto simp: parseIntegerInput_eq split: option.splits)

text \<open>
  What a round computes with: an accepted contribution is NaN or an integer from 0 to
  5, and the committed value an integer from 0 to 5, so the fair result is an integer
  in \<open>[0, 6)\<close>, or NaN when the contribution is.
\<close>

lemma parseInt_cases: "parseInt s = NaN \<or> (\<exists>n. parseInt s = fl (of_int n))"
  by (auto simp del: of_int_mult simp: parseInt_def Let_def)

lemma accepted_contribution:
  assumes "fst (parseIntegerInput answer g) = Some x"
  shows "x = NaN \<or> (\<exists>n. 0 \<le> n \<and> n \<le> 5 \<and> x = Fin (of_int n))"
proof -
  from assms have r: "rejection answer = None" and x: "x = parseInt answer"
    by (simp_all add: accepted_iff)
  from r have lo: "\<not> num_lt x (Fin 0)" and hi: "\<not> num_lt (Fin 5) x"
    unfolding x by (simp_all add: rejection_def split: if_splits)
  from parseInt_cases [of answer] show ?thesis
  proof
    assume "parseInt answer = NaN"
    then show ?thesis using x by simp
  next
    assume "\<exists>n. parseInt answer = fl (of_int n)"
    then obtain n where n: "x = fl (of_int n)" using x by auto
    have "0 \<le> n" using lo fl_of_int_below [of n] unfolding n by linarith
    moreover have "n \<le> 5" using hi fl_of_int_above [of n] unfolding n by linarith
    ultimately have "0 \<le> n \<and> n \<le> 5 \<and> x = Fin (of_int n)"
      unfolding n using fl_of_int [of n] by simp
    then show ?thesis by blast
  qed
qed

lemma fair_result_in_session:
  assumes "reachable H g" "pending g = Some c" "fst (parseIntegerInput answer g) = Some x"
  shows "(x = NaN \<and> combine c x (Fin 6) = NaN)
       \<or> (\<exists>r. 0 \<le> r \<and> r < 6 \<and> combine c x (Fin 6) = Fin (of_int r))"
proof -
  have i: "session_inv H g" using assms(1) by (rule reachable_inv)
  from assms(2) obtain cb where cb: "rl g = Waiting cb"
    by (cases "rl g") (simp_all add: pending_def)
  have "committed H g c"
    using i assms(2) cb by (cases cb) (auto simp: session_inv_def pending_def)
  then obtain j where j: "c = Fin (of_nat j)" "j < 6"
    unfolding committed_def by blast
  have cj: "c = Fin (of_int (int j))" using j(1) by simp
  from accepted_contribution [OF assms(3)] show ?thesis
  proof
    assume "x = NaN"
    then show ?thesis by (cases c) (simp_all add: combine_def)
  next
    assume "\<exists>n. 0 \<le> n \<and> n \<le> 5 \<and> x = Fin (of_int n)"
    then obtain n where n: "0 \<le> n" "n \<le> 5" "x = Fin (of_int n)" by blast
    have s: "fl (of_int (int j + n)) = Fin (of_int (int j + n))"
      using fl_of_int [of "int j + n"] n(1,2) j(2) by simp
    have "num_add c x = Fin (of_int (int j + n))"
      unfolding cj n(3) using s by simp
    then have "combine c x (Fin 6) = Fin (of_int ((int j + n) mod 6))"
      unfolding combine_def using num_rem_int_nonneg [of "int j + n" 6] n(1) by simp
    moreover have "0 \<le> (int j + n) mod 6" "(int j + n) mod 6 < 6" by simp_all
    ultimately show ?thesis by blast
  qed
qed










lemma number_at_eq:
  assumes "0 < m"
  shows "number_at bytes p (Fin (of_nat m))
           = Fin (of_nat (foldl (\<lambda>a b. a * 256 + unat b) 0 (map bytes [p ..< p + 4]) mod m))"
proof -
  have "take 4 (map bytes [p ..< p + 4]) = map bytes [p ..< p + 4]" by simp
  then show ?thesis
    unfolding number_at_def readUInt32BE_def using assms by (simp only: num_rem_nat)
qed

lemma key_at_bytes0:
  "key_at bytes0 36 = ''2425262728292a2b2c2d2e2f303132333435363738393a3b3c3d3e3f40414243''"
  "key_at bytes0 72 = ''48494a4b4c4d4e4f505152535455565758595a5b5c5d5e5f6061626364656667''"
  by (simp_all add: key_at_def toHex_def bytes0_def)

lemma number_at_bytes0:
  "number_at bytes0 68 (Fin 6) = Fin 5" "number_at bytes0 104 (Fin 6) = Fin 5"
  using number_at_eq [of 6 bytes0 68] number_at_eq [of 6 bytes0 104]
  by (simp_all add: bytes0_def)











lemma fl_3_2: "fl (3 / 2) = Fin (3 / 2)"
proof -
  have f: "Fract 3 2 = (3 / 2 :: rat)" by (simp add: Fract_of_int_quotient)
  have "quotient_of (Fract 3 2) = Rat.normalize (3, 2)" by (rule quotient_of_Fract)
  then have q: "quotient_of (3 / 2) = (3, 2)"
    unfolding f by (simp add: Rat.normalize_def)
  have l: "log2i 3 = 1" "log2i 2 = 1"
    by (simp_all add: log2i.simps [of 3] log2i.simps [of 2] log2i.simps [of 1])
  have il: "ilog2 (3 / 2) = 0"
    by (simp add: ilog2_def q l pow2_def)
  have r: "rne 6755399441055744 = 6755399441055744" by (rule rne_numeral)
  show ?thesis
    by (simp add: fl_def Let_def il pow2_def r)
qed

lemma invalid_examples:
  "no_literal (js ''abc'')" "includes' (js ''1,2'') 0x2C"
  "\<not> isInteger (parseFloat (js ''1.5''))"
  "decimal_integer (js ''-3'') = Some (- 3)"
proof -
  have "\<lfloor>3 / 2 :: rat\<rfloor> = 1" by (rule floor_unique) simp_all
  then show "\<not> isInteger (parseFloat (js ''1.5''))"
    by (simp add: parse_defs fl_3_2)
qed (simp_all add: no_literal_def decimal_integer_def parse_defs)



subsection \<open>The outcome of a round\<close>

lemma roll_gt_Some [simp]: "roll_gt (Some u) (Some v) \<longleftrightarrow> v < u"
  by (simp add: roll_gt_def)

lemma fst_roll: "fst (roll d g) = face_at (prng g) (ppos g) d"
  by (simp add: roll_eq)

text \<open>
  Claim C2: when the user's contribution is accepted in the second half of the round,
  the user's roll is made and printed, the session ends, and the last line printed is
  \<^verbatim>\<open>You win (u > c)!\<close> if the user's roll is greater than the computer's and
  \<^verbatim>\<open>I win!\<close> in every other case; so for two rolled values the computer wins exactly
  when the user's roll is less than or equal to its own, a tie included.
\<close>

theorem outcome_by_strict_comparison:
  assumes "rl g = Waiting (PlayRoundUser compRoll c)" "userDice g = Some d"
    and "answer \<noteq> js ''X''" "answer \<noteq> js ''x''"
    and "fst (parseIntegerInput answer g) \<noteq> None"
  shows "\<exists>g'. on_line H g answer = Inr g' \<and> phase_of g' = Done
           \<and> out g' ! (length (out g) + 2)
               = ''Your roll result is '' @ show_roll (fst (roll d g)) @ ''.''
           \<and> last (out g')
               = (if roll_gt (fst (roll d g)) compRoll
                  then ''You win ('' @ show_roll (fst (roll d g)) @ '' > ''
                       @ show_roll compRoll @ '')!''
                  else ''I win!'')
           \<and> (\<forall>u v. fst (roll d g) = Some u \<and> compRoll = Some v
                 \<longrightarrow> (last (out g') = ''I win!'') = (u \<le> v))"
proof -
  from assms(5) have r: "rejection answer = None"
    using rejected_iff [of answer g] by (cases "rejection answer") auto
  have d: "userDice (g\<lparr>rl := Idle\<rparr>) = Some d" using assms(2) by simp
  have "on_line H g answer = playRound_userAnswer H (g\<lparr>rl := Idle\<rparr>) compRoll c answer"
    using assms(1) by (simp add: on_line_def)
  then show ?thesis
    unfolding playRound_userAnswer_accepted [OF assms(3,4) r d]
    by (auto simp: phase_of_def fst_roll outcome_line_def nth_append)
qed

theorem outcome_by_strict_comparison_witness:
  "\<exists>g. main H0 bytes0 draws0 (Some (js ''1,2,3'')) [js ''0'', js ''0'', js ''3''] = Inr g
       \<and> rl g = Waiting (PlayRoundUser (Some 1) (Fin 5))
       \<and> (\<exists>g'. on_line H0 g (js ''2'') = Inr g' \<and> phase_of g' = Done
                \<and> last (out g') = ''You win (2 > 1)!'')"
proof -
  obtain g where g: "main H0 bytes0 draws0 (Some (js ''1,2,3'')) [js ''0'', js ''0'', js ''3''] = Inr g"
    "rl g = Waiting (PlayRoundUser (face_at draws0 0 \<lparr>values' = [1, 1, 6, 6, 8, 8]\<rparr>)
                           (number_at bytes0 104 (Fin 6)))"
    "userDice g = Some \<lparr>values' = [2, 2, 4, 4, 9, 9]\<rparr>" "prng g = draws0" "ppos g = 1"
    using run_round [of H0 bytes0 draws0] by blast
  have a: "fst (parseIntegerInput (js ''2'') g) \<noteq> None"
    using rejected_iff [of "js ''2''" g] rejection_examples(5) by simp
  have t: "toString (Fin 2) = ''2''" "toString (Fin 1) = ''1''"
    using toString_digit [of 2] toString_digit [of 1] by simp_all
  from outcome_by_strict_comparison [OF g(2,3) js_neq_examples(10,11) a, of H0]
  show ?thesis
    using g by (auto simp: fst_roll face_at_draws0 number_at_bytes0 show_roll_def t)
qed

subsection \<open>The roll and the contribution\<close>

text \<open>
  Claim C3: at either question of a round, two accepted contributions \<open>x\<close> and \<open>y\<close> lead
  to states that agree in everything but the output, in particular in the roll just made
  and in the positions of both random sources; and the outputs agree in everything but
  the line that discloses \<open>combine c x 6\<close>, respectively \<open>combine c y 6\<close>.
\<close>

theorem roll_ignores_contribution:
  assumes "phase_of g = RollExchange" "pending g = Some c"
    and "a \<noteq> js ''X''" "a \<noteq> js ''x''" "fst (parseIntegerInput a g) = Some x"
    and "b \<noteq> js ''X''" "b \<noteq> js ''x''" "fst (parseIntegerInput b g) = Some y"
    and "on_line H g a = Inr ga" "on_line H g b = Inr gb"
  shows "ga\<lparr>out := []\<rparr> = gb\<lparr>out := []\<rparr>
         \<and> (\<exists>post. out ga = out g @ reveal_line c (show_string (key g)) # fair_line c x # post
                   \<and> out gb = out g @ reveal_line c (show_string (key g)) # fair_line c y # post)"
proof -
  from assms(5) have ra: "rejection a = None" and x: "x = parseInt a"
    by (simp_all add: accepted_iff)
  from assms(8) have rb: "rejection b = None" and y: "y = parseInt b"
    by (simp_all add: accepted_iff)
  from assms(1) consider (comp) c' where "rl g = Waiting (PlayRound c')"
    | (user) r c' where "rl g = Waiting (PlayRoundUser r c')"
    using phase_RollExchange by blast
  then show ?thesis
  proof cases
    case comp
    with assms(2) have c: "c' = c" by (simp add: pending_def)
    have oa: "playRound_answer H (g\<lparr>rl := Idle\<rparr>) c a = Inr ga"
      and ob: "playRound_answer H (g\<lparr>rl := Idle\<rparr>) c b = Inr gb"
      using assms(9,10) comp c by (simp_all add: on_line_def)
    obtain d where d: "compDice (g\<lparr>rl := Idle\<rparr>) = Some d"
      using oa assms(3,4) ra
      by (cases "compDice g")
         (simp_all add: playRound_answer_def parseIntegerInput_eq Let_def console_log_def)
    show ?thesis
      using oa ob
      unfolding playRound_answer_accepted [OF assms(3,4) ra d]
        playRound_answer_accepted [OF assms(6,7) rb d] x y
      by auto
  next
    case user
    with assms(2) have c: "c' = c" by (simp add: pending_def)
    have oa: "playRound_userAnswer H (g\<lparr>rl := Idle\<rparr>) r c a = Inr ga"
      and ob: "playRound_userAnswer H (g\<lparr>rl := Idle\<rparr>) r c b = Inr gb"
      using assms(9,10) user c by (simp_all add: on_line_def)
    obtain d where d: "userDice (g\<lparr>rl := Idle\<rparr>) = Some d"
      using oa assms(3,4) ra
      by (cases "userDice g")
         (simp_all add: playRound_userAnswer_def parseIntegerInput_eq Let_def console_log_def)
    show ?thesis
      using oa ob
      unfolding playRound_userAnswer_accepted [OF assms(3,4) ra d]
        playRound_userAnswer_accepted [OF assms(6,7) rb d] x y
      by auto
  qed
qed

theorem roll_ignores_contribution_witness:
  "\<exists>g ga gb. main H0 bytes0 draws0 (Some (js ''1,2,3'')) [js ''0'', js ''0''] = Inr g
       \<and> on_line H0 g (js ''3'') = Inr ga \<and> on_line H0 g (js ''2'') = Inr gb
       \<and> rl ga = Waiting (PlayRoundUser (Some 1) (Fin 5)) \<and> rl gb = rl ga
       \<and> ga\<lparr>out := []\<rparr> = gb\<lparr>out := []\<rparr>"
proof -
  obtain g where g: "main H0 bytes0 draws0 (Some (js ''1,2,3'')) [js ''0'', js ''0''] = Inr g"
    "rl g = Waiting (PlayRound (number_at bytes0 68 (Fin 6)))"
    "compDice g = Some \<lparr>values' = [1, 1, 6, 6, 8, 8]\<rparr>"
    "csprng g = bytes0" "cpos g = 72" "prng g = draws0" "ppos g = 0"
    using run_choice [of H0 bytes0 draws0] by blast
  have d: "compDice (g\<lparr>rl := Idle\<rparr>) = Some \<lparr>values' = [1, 1, 6, 6, 8, 8]\<rparr>"
    using g(3) by simp
  have p: "phase_of g = RollExchange" "pending g = Some (Fin 5)"
    using g(2) by (simp_all add: phase_of_def pending_def number_at_bytes0)
  have a: "fst (parseIntegerInput (js ''3'') g) = Some (Fin 3)"
    "fst (parseIntegerInput (js ''2'') g) = Some (Fin 2)"
    by (simp_all add: accepted_iff rejection_examples parseInt_examples) (simp add: parse_defs)
  obtain ga where ga: "on_line H0 g (js ''3'') = Inr ga"
    "rl ga = Waiting (PlayRoundUser (Some 1) (Fin 5))"
    using g(2-)
    by (simp add: on_line_def
        playRound_answer_accepted [OF js_neq_examples(8,9) rejection_examples(4) d]
        face_at_draws0 number_at_bytes0)
  obtain gb where gb: "on_line H0 g (js ''2'') = Inr gb"
    using g(2)
    by (simp add: on_line_def
        playRound_answer_accepted [OF js_neq_examples(10,11) rejection_examples(5) d])
  from roll_ignores_contribution [OF p js_neq_examples(8,9) a(1) js_neq_examples(10,11) a(2) ga(1) gb]
  have e: "ga\<lparr>out := []\<rparr> = gb\<lparr>out := []\<rparr>" by simp
  then have "rl (ga\<lparr>out := []\<rparr>) = rl (gb\<lparr>out := []\<rparr>)" by simp
  then have "rl gb = rl ga" by simp
  with g(1) ga gb e show ?thesis by blast
qed

subsection \<open>The commitment\<close>

lemma js_neq_guess:
  "js ''1'' \<noteq> js ''X''" "js ''1'' \<noteq> js ''x''" "js ''1'' \<noteq> js ''?''"
  by (simp_all add: js_def)

lemma nth_append_length_Cons: "(xs @ y # ys) ! length xs = y"
  by simp

text \<open>
  Claim C5: in every state a run reaches with a commitment pending on a value \<open>v\<close>, the
  tag held in \<^verbatim>\<open>this.hmac\<close>, which was printed, is \<open>H k (v.toString())\<close>, where \<open>H\<close> is
  the MAC (HMAC over SHA3-256), \<open>k\<close> the key held in \<^verbatim>\<open>this.key\<close>, and \<^verbatim>\<open>v.toString()\<close>
  one decimal digit from 0 to 5, so that recomputing the MAC from the revealed key and
  value gives the printed tag; and every answer that makes
  the program reveal (a guess of 0 or 1 in FirstMove, an accepted contribution in
  RollExchange) makes it print first exactly that value and that key.
\<close>

theorem commitment_verifies:
  assumes "reachable H g" "pending g = Some v"
  shows "\<exists>k. key g = Some k \<and> hmac g = Some (H k (toString v))
           \<and> (tag_line ''1'' (H k (toString v)) \<in> set (out g)
              \<or> tag_line ''5'' (H k (toString v)) \<in> set (out g))
           \<and> (\<exists>n<6. v = Fin (of_nat n) \<and> toString v = [''0123456789'' ! n])
           \<and> (\<forall>answer. phase_of g = FirstMove \<and> (answer = js ''0'' \<or> answer = js ''1'')
                 \<longrightarrow> (\<exists>g'. on_line H g answer = Inr g'
                        \<and> out g' ! length (out g)
                            = ''My selection: '' @ toString v @ '' (KEY='' @ k @ '').''))
           \<and> (\<forall>answer. phase_of g = RollExchange \<and> answer \<noteq> js ''X'' \<and> answer \<noteq> js ''x''
                   \<and> fst (parseIntegerInput answer g) \<noteq> None
                 \<longrightarrow> (\<exists>g'. on_line H g answer = Inr g'
                        \<and> out g' ! length (out g)
                            = ''My number is '' @ toString v @ '' (KEY='' @ k @ '').''))"
proof -
  have i: "session_inv H g" using assms(1) by (rule reachable_inv)
  from assms(2) obtain cb where cb: "rl g = Waiting cb"
    by (cases "rl g") (simp_all add: pending_def)
  have cm: "committed H g v"
    using i assms(2) cb by (cases cb) (auto simp: session_inv_def pending_def)
  then obtain k n where k: "key g = Some k" "v = Fin (of_nat n)" "n < 6"
    "hmac g = Some (H k (toString v))"
    "tag_line ''1'' (H k (toString v)) \<in> set (out g)
     \<or> tag_line ''5'' (H k (toString v)) \<in> set (out g)"
    unfolding committed_def by blast
  have ts: "toString v = [''0123456789'' ! n]"
    using k(2,3) toString_digit [of n] by simp
  have first: "\<exists>g'. on_line H g answer = Inr g'
        \<and> out g' ! length (out g) = ''My selection: '' @ toString v @ '' (KEY='' @ k @ '').''"
    if "phase_of g = FirstMove" "answer = js ''0'' \<or> answer = js ''1''" for answer
  proof -
    from that(1) cb have p: "rl g = Waiting PromptUser"
      by (cases cb) (simp_all add: phase_of_def)
    with i have "fresh_pool g" by (simp add: session_inv_def)
    then have ds: "diceSet (g\<lparr>rl := Idle\<rparr>) = Some preset" by (simp add: fresh_pool_def)
    have c: "compChoice g = Some v" using assms(2) p by (simp add: pending_def)
    have "on_line H g answer = resolveFirstMove (g\<lparr>rl := Idle\<rparr>) (parseInt answer)"
      using p that(2) js_neq_examples(1-3) js_neq_guess
      by (auto simp: on_line_def promptUser_answer_def)
    then show ?thesis
      unfolding resolveFirstMove_eq [OF ds]
      by (simp add: first_move_lines_def c k(1) show_number_def show_string_def
          nth_append_length_Cons)
  qed
  have later: "\<exists>g'. on_line H g answer = Inr g'
        \<and> out g' ! length (out g) = ''My number is '' @ toString v @ '' (KEY='' @ k @ '').''"
    if "phase_of g = RollExchange" "answer \<noteq> js ''X''" "answer \<noteq> js ''x''"
      "fst (parseIntegerInput answer g) \<noteq> None" for answer
  proof -
    from that(4) have r: "rejection answer = None"
      using rejected_iff [of answer g] by (cases "rejection answer") auto
    from that(1) consider (comp) c where "rl g = Waiting (PlayRound c)"
      | (user) r c where "rl g = Waiting (PlayRoundUser r c)"
      using phase_RollExchange by blast
    then show ?thesis
    proof cases
      case comp
      with assms(2) have c: "c = v" by (simp add: pending_def)
      from i comp have "taken g" by (simp add: session_inv_def)
      then obtain d where d: "compDice (g\<lparr>rl := Idle\<rparr>) = Some d"
        using taken_compDice by auto
      have "on_line H g answer = playRound_answer H (g\<lparr>rl := Idle\<rparr>) v answer"
        using comp c by (simp add: on_line_def)
      then show ?thesis
        unfolding playRound_answer_accepted [OF that(2,3) r d]
        by (simp add: reveal_line_def k(1) show_string_def nth_append_length_Cons)
    next
      case user
      with assms(2) have c: "c = v" by (simp add: pending_def)
      from i user have "taken g" by (simp add: session_inv_def)
      then obtain d where d: "userDice (g\<lparr>rl := Idle\<rparr>) = Some d"
        using taken_userDice by auto
      have "on_line H g answer = playRound_userAnswer H (g\<lparr>rl := Idle\<rparr>) r v answer"
        using user c by (simp add: on_line_def)
      then show ?thesis
        unfolding playRound_userAnswer_accepted [OF that(2,3) r d]
        by (simp add: reveal_line_def k(1) show_string_def nth_append_length_Cons)
    qed
  qed
  show ?thesis
    using k ts first later by auto
qed

theorem commitment_verifies_witness:
  "\<exists>g. main H0 bytes0 draws0 (Some (js ''1,2,3'')) [js ''0'', js ''0''] = Inr g
       \<and> reachable H0 g \<and> pending g = Some (Fin 5)
       \<and> key g = Some ''2425262728292a2b2c2d2e2f303132333435363738393a3b3c3d3e3f40414243''
       \<and> hmac g = Some (H0 ''2425262728292a2b2c2d2e2f303132333435363738393a3b3c3d3e3f40414243''
                          ''5'')
       \<and> toString (Fin 5) = ''5''"
proof -
  obtain g where g: "main H0 bytes0 draws0 (Some (js ''1,2,3'')) [js ''0'', js ''0''] = Inr g"
    "rl g = Waiting (PlayRound (number_at bytes0 68 (Fin 6)))" "key g = Some (key_at bytes0 36)"
    using run_choice [of H0 bytes0 draws0] by blast
  have r: "reachable H0 g" using g(1) by (rule reachable_main)
  have p: "pending g = Some (Fin 5)" using g(2) by (simp add: pending_def number_at_bytes0)
  have t: "toString (Fin 5) = ''5''" using toString_digit [of 5] by simp
  from commitment_verifies [OF r p] obtain k where
    "key g = Some k" "hmac g = Some (H0 k (toString (Fin 5)))"
    by blast
  with g r p t show ?thesis by (auto simp: key_at_bytes0)
qed

subsection \<open>Choosing the dice\<close>

lemma choose_valid:
  assumes "rl g = Waiting ChooseDice" "diceSet g = Some ds"
    and "answer \<noteq> js ''X''" "answer \<noteq> js ''x''"
    and "parseInt answer = Fin (of_nat i)" "i < length ds"
  shows "\<exists>g'. on_line H g answer = Inr g' \<and> phase_of g' = RollExchange
           \<and> userDice g' = Some (ds ! i)
           \<and> diceSet g' = Some (take i ds @ drop (Suc i) ds)
           \<and> compDice g' = index (take i ds @ drop (Suc i) ds) (Fin 0)"
proof -
  have ds: "diceSet (g\<lparr>rl := Idle\<rparr>) = Some ds" using assms(2) by simp
  have "on_line H g answer = chooseDice_answer H (g\<lparr>rl := Idle\<rparr>) answer"
    using assms(1) by (simp add: on_line_def)
  then show ?thesis
    unfolding chooseDice_answer_valid [OF assms(3,4) ds assms(5,6)]
    by (simp add: playRound_eq phase_of_def)
qed

lemma round_frame:
  assumes "rl g = Closed \<or> phase_of g = RollExchange" "on_line H g answer = Inr g'"
  shows "userDice g' = userDice g \<and> diceSet g' = diceSet g \<and> compDice g' = compDice g"
proof -
  from assms(1) consider (closed) "rl g = Closed"
    | (comp) c where "rl g = Waiting (PlayRound c)"
    | (user) r c where "rl g = Waiting (PlayRoundUser r c)"
    using phase_RollExchange by blast
  then show ?thesis
  proof cases
    case closed
    with assms(2) show ?thesis by (simp add: on_line_def)
  next
    case comp
    show ?thesis
    proof (cases "answer = js ''X'' \<or> answer = js ''x''")
      case True
      with assms(2) comp show ?thesis
        by (auto simp: on_line_def playRound_answer_def exit_eq)
    next
      case False
      then have nx: "answer \<noteq> js ''X''" "answer \<noteq> js ''x''" by simp_all
      show ?thesis
      proof (cases "rejection answer")
        case (Some m)
        with assms(2) comp show ?thesis
          by (auto simp: on_line_def playRound_answer_rejected [OF nx Some] playRound_eq)
      next
        case None
        show ?thesis
        proof (cases "compDice g")
          case None
          with assms(2) comp \<open>rejection answer = None\<close> nx show ?thesis
            by (simp add: on_line_def playRound_answer_def parseIntegerInput_eq Let_def
                console_log_def)
        next
          case (Some d)
          then have d: "compDice (g\<lparr>rl := Idle\<rparr>) = Some d" by simp
          from assms(2) comp show ?thesis
            by (auto simp: on_line_def playRound_answer_accepted [OF nx None d])
        qed
      qed
    qed
  next
    case user
    show ?thesis
    proof (cases "answer = js ''X'' \<or> answer = js ''x''")
      case True
      with assms(2) user show ?thesis
        by (auto simp: on_line_def playRound_userAnswer_def exit_eq)
    next
      case False
      then have nx: "answer \<noteq> js ''X''" "answer \<noteq> js ''x''" by simp_all
      show ?thesis
      proof (cases "rejection answer")
        case (Some m)
        with assms(2) user show ?thesis
          by (auto simp: on_line_def playRound_userAnswer_rejected [OF nx Some] playRound_eq)
      next
        case None
        show ?thesis
        proof (cases "userDice g")
          case None
          with assms(2) user \<open>rejection answer = None\<close> nx show ?thesis
            by (simp add: on_line_def playRound_userAnswer_def parseIntegerInput_eq Let_def
                console_log_def)
        next
          case (Some d)
          then have d: "userDice (g\<lparr>rl := Idle\<rparr>) = Some d" by simp
          from assms(2) user show ?thesis
            by (auto simp: on_line_def playRound_userAnswer_accepted [OF nx None d])
        qed
      qed
    qed
  qed
qed

lemma inv_userDice:
  assumes "session_inv H g" "userDice g = Some d"
  shows "taken g \<and> (rl g = Closed \<or> phase_of g = RollExchange)"
proof (cases "rl g")
  case Idle
  with assms show ?thesis by (simp add: session_inv_def)
next
  case Closed
  with assms show ?thesis by (auto simp: session_inv_def fresh_pool_def)
next
  case (Waiting cb)
  with assms show ?thesis
    by (cases cb) (auto simp: session_inv_def fresh_pool_def phase_of_def)
qed

lemma taken_not_in_pool:
  assumes "taken g" "userDice g = Some d"
  shows "\<exists>ds. diceSet g = Some ds \<and> d \<notin> set ds \<and> length ds = 2"
proof -
  from assms obtain n where n: "n < 3" "diceSet g = Some (take n preset @ drop (Suc n) preset)"
    "d = preset ! n"
    by (auto simp: taken_def)
  from n(1) consider "n = 0" | "n = 1" | "n = 2" by linarith
  then show ?thesis
    by cases (simp_all add: n preset_def)
qed

text \<open>
  Claim C6: choosing a valid index \<open>i\<close> at the dice prompt assigns the die at position
  \<open>i\<close> of the set to the user and removes it, so that the set is shorter by one; and in
  every state a run reaches in which the user holds a die, the dice prompt is not
  pending, that die is not in the set, and no input line changes the user's die or the
  set any more.
\<close>

theorem die_taken_once:
  "(rl g = Waiting ChooseDice \<and> diceSet g = Some ds \<and> answer \<noteq> js ''X'' \<and> answer \<noteq> js ''x''
      \<and> parseInt answer = Fin (of_nat i) \<and> i < length ds
    \<longrightarrow> (\<exists>g'. on_line H g answer = Inr g' \<and> userDice g' = Some (ds ! i)
            \<and> diceSet g' = Some (take i ds @ drop (Suc i) ds)
            \<and> length (take i ds @ drop (Suc i) ds) + 1 = length ds))
   \<and> (reachable H g \<and> userDice g = Some d
    \<longrightarrow> phase_of g \<noteq> DiceSelection
        \<and> (\<exists>ds. diceSet g = Some ds \<and> d \<notin> set ds)
        \<and> (\<forall>answer g'. on_line H g answer = Inr g'
              \<longrightarrow> userDice g' = Some d \<and> diceSet g' = diceSet g))"
proof (intro conjI impI)
  assume a: "rl g = Waiting ChooseDice \<and> diceSet g = Some ds \<and> answer \<noteq> js ''X''
      \<and> answer \<noteq> js ''x'' \<and> parseInt answer = Fin (of_nat i) \<and> i < length ds"
  then have "length (take i ds @ drop (Suc i) ds) + 1 = length ds" by auto
  with a choose_valid [of g ds answer i H]
  show "\<exists>g'. on_line H g answer = Inr g' \<and> userDice g' = Some (ds ! i)
            \<and> diceSet g' = Some (take i ds @ drop (Suc i) ds)
            \<and> length (take i ds @ drop (Suc i) ds) + 1 = length ds"
    by auto
next
  assume a: "reachable H g \<and> userDice g = Some d"
  then have "session_inv H g" by (simp add: reachable_inv)
  with a have t: "taken g" and p: "rl g = Closed \<or> phase_of g = RollExchange"
    using inv_userDice by blast+
  from p show "phase_of g \<noteq> DiceSelection" by (auto simp: phase_of_def)
  from taken_not_in_pool [OF t] a show "\<exists>ds. diceSet g = Some ds \<and> d \<notin> set ds" by blast
  from round_frame [OF p] a
  show "\<forall>answer g'. on_line H g answer = Inr g' \<longrightarrow> userDice g' = Some d \<and> diceSet g' = diceSet g"
    by auto
qed

theorem die_taken_once_witness:
  "\<exists>g0 g. main H0 bytes0 draws0 (Some (js ''1,2,3'')) [js ''0''] = Inr g0
       \<and> rl g0 = Waiting ChooseDice \<and> diceSet g0 = Some preset \<and> parseInt (js ''0'') = Fin 0
       \<and> on_line H0 g0 (js ''0'') = Inr g
       \<and> userDice g = Some (preset ! 0) \<and> diceSet g = Some (drop 1 preset)
       \<and> reachable H0 g \<and> phase_of g \<noteq> DiceSelection \<and> preset ! 0 \<notin> set (drop 1 preset)"
proof -
  obtain g0 where g0: "main H0 bytes0 draws0 (Some (js ''1,2,3'')) [js ''0''] = Inr g0"
    "rl g0 = Waiting ChooseDice" "diceSet g0 = Some preset"
    using run_guess [of H0 bytes0 draws0] by blast
  have p: "parseInt (js ''0'') = Fin (of_nat 0)" by (simp add: parseInt_examples)
  have len: "0 < length preset" by (simp add: preset_def)
  from die_taken_once [where g = g0 and ds = preset and answer = "js ''0''" and i = 0 and H = H0]
    g0 p len js_neq_examples(1,2)
  obtain g where g: "on_line H0 g0 (js ''0'') = Inr g" "userDice g = Some (preset ! 0)"
    "diceSet g = Some (take 0 preset @ drop (Suc 0) preset)"
    by blast
  have "main H0 bytes0 draws0 (Some (js ''1,2,3'')) ([js ''0''] @ [js ''0'']) = Inr g"
    using main_snoc [OF g0(1)] g(1) by simp
  then have r: "reachable H0 g" by (rule reachable_main)
  from die_taken_once [where g = g and H = H0 and d = "preset ! 0"] r g(2)
  have "phase_of g \<noteq> DiceSelection" "\<exists>ds. diceSet g = Some ds \<and> preset ! 0 \<notin> set ds"
    by blast+
  with g0 g r show ?thesis by (auto simp: parseInt_examples)
qed

text \<open>
  Claim C7, as the code has it: after the user's choice of a valid index the computer is
  assigned the first die of what is left of the set, whatever the random sources yield,
  and that die stays in the set. With the preset dice and index 0 the user holds
  \<^verbatim>\<open>[2,2,4,4,9,9]\<close>, the computer holds \<^verbatim>\<open>[1,1,6,6,8,8]\<close>, and the set still has the two
  dice \<^verbatim>\<open>[1,1,6,6,8,8]\<close> and \<^verbatim>\<open>[3,3,5,5,7,7]\<close>.
\<close>

theorem computer_holds_first_remaining:
  assumes "rl g = Waiting ChooseDice" "diceSet g = Some ds"
    and "answer \<noteq> js ''X''" "answer \<noteq> js ''x''"
    and "parseInt answer = Fin (of_nat i)" "i < length ds" "2 \<le> length ds"
  shows "\<exists>g'. on_line H g answer = Inr g' \<and> phase_of g' = RollExchange
           \<and> userDice g' = Some (ds ! i)
           \<and> diceSet g' = Some (take i ds @ drop (Suc i) ds)
           \<and> compDice g' = Some (hd (take i ds @ drop (Suc i) ds))
           \<and> length (take i ds @ drop (Suc i) ds) = length ds - 1
           \<and> (ds = preset \<and> i = 0
                \<longrightarrow> userDice g' = Some \<lparr>values' = [2, 2, 4, 4, 9, 9]\<rparr>
                  \<and> compDice g' = Some \<lparr>values' = [1, 1, 6, 6, 8, 8]\<rparr>
                  \<and> diceSet g' = Some [\<lparr>values' = [1, 1, 6, 6, 8, 8]\<rparr>,
                                         \<lparr>values' = [3, 3, 5, 5, 7, 7]\<rparr>])"
proof -
  have ne: "take i ds @ drop (Suc i) ds \<noteq> []" using assms(6,7) by auto
  then have "index (take i ds @ drop (Suc i) ds) (Fin 0) = Some (hd (take i ds @ drop (Suc i) ds))"
    by (cases "take i ds @ drop (Suc i) ds") (simp_all add: index_zero)
  moreover have "length (take i ds @ drop (Suc i) ds) = length ds - 1"
    using assms(6) by auto
  ultimately show ?thesis
    using choose_valid [OF assms(1-6), of H] by (auto simp: preset_def)
qed

theorem computer_holds_first_remaining_witness:
  "\<exists>g0 g. main H0 bytes0 draws0 (Some (js ''1,2,3'')) [js ''0''] = Inr g0
       \<and> on_line H0 g0 (js ''0'') = Inr g
       \<and> userDice g = Some \<lparr>values' = [2, 2, 4, 4, 9, 9]\<rparr>
       \<and> compDice g = Some \<lparr>values' = [1, 1, 6, 6, 8, 8]\<rparr>
       \<and> diceSet g = Some [\<lparr>values' = [1, 1, 6, 6, 8, 8]\<rparr>, \<lparr>values' = [3, 3, 5, 5, 7, 7]\<rparr>]"
proof -
  obtain g0 where g0: "main H0 bytes0 draws0 (Some (js ''1,2,3'')) [js ''0''] = Inr g0"
    "rl g0 = Waiting ChooseDice" "diceSet g0 = Some preset"
    using run_guess [of H0 bytes0 draws0] by blast
  have p: "parseInt (js ''0'') = Fin (of_nat 0)" by (simp add: parseInt_examples)
  have len: "0 < length preset" "2 \<le> length preset" by (simp_all add: preset_def)
  from computer_holds_first_remaining [OF g0(2,3) js_neq_examples(1,2) p len, of H0] g0(1)
  show ?thesis by auto
qed

text \<open>
  Claim C7 as stated fails in its last part: in the scenario of the claim two dice
  remain in the set, not one, since the computer's die is read from the set and not
  taken out of it.
\<close>

theorem pool_keeps_computer_die_counterexample:
  "field diceSet (main H0 bytes0 draws0 (Some (js ''1,2,3'')) [js ''0''])
     = Some (Some [\<lparr>values' = [2, 2, 4, 4, 9, 9]\<rparr>, \<lparr>values' = [1, 1, 6, 6, 8, 8]\<rparr>,
                   \<lparr>values' = [3, 3, 5, 5, 7, 7]\<rparr>])
   \<and> field userDice (main H0 bytes0 draws0 (Some (js ''1,2,3'')) [js ''0'', js ''0''])
     = Some (Some \<lparr>values' = [2, 2, 4, 4, 9, 9]\<rparr>)
   \<and> field compDice (main H0 bytes0 draws0 (Some (js ''1,2,3'')) [js ''0'', js ''0''])
     = Some (Some \<lparr>values' = [1, 1, 6, 6, 8, 8]\<rparr>)
   \<and> field diceSet (main H0 bytes0 draws0 (Some (js ''1,2,3'')) [js ''0'', js ''0''])
     = Some (Some [\<lparr>values' = [1, 1, 6, 6, 8, 8]\<rparr>, \<lparr>values' = [3, 3, 5, 5, 7, 7]\<rparr>])"
  using run_guess [of H0 bytes0 draws0] run_choice [of H0 bytes0 draws0]
  by (auto simp: field_def preset_def)

lemma run_choice_any:
  assumes "a \<noteq> js ''X''" "a \<noteq> js ''x''" "parseInt a = Fin (of_nat i)" "i < 3"
  shows "\<exists>g. main H bytes draws (Some (js ''1,2,3'')) [js ''0'', a] = Inr g
       \<and> phase_of g = RollExchange \<and> userDice g = Some (preset ! i)
       \<and> diceSet g = Some (take i preset @ drop (Suc i) preset)"
proof -
  obtain g0 where g0: "main H bytes draws (Some (js ''1,2,3'')) [js ''0''] = Inr g0"
    "rl g0 = Waiting ChooseDice" "diceSet g0 = Some preset"
    using run_guess [of H bytes draws] by blast
  have len: "i < length preset" using assms(4) by (simp add: preset_def)
  have "main H bytes draws (Some (js ''1,2,3'')) ([js ''0''] @ [a]) = on_line H g0 a"
    using g0(1) by (rule main_snoc)
  with choose_valid [OF g0(2,3) assms(1-3) len, of H] show ?thesis by auto
qed

text \<open>
  Claim C9 does not hold of the code: at the dice prompt \<^verbatim>\<open>1abc\<close> is accepted as index
  1, \<^verbatim>\<open>0.5\<close> as index 0 and \<^verbatim>\<open>1,2\<close> as index 1, because \<^verbatim>\<open>isValidDiceChoice\<close> looks
  only at what \<^verbatim>\<open>parseInt\<close> reads from the start of the input.
\<close>

theorem dice_choice_accepts_trailing_text:
  "field phase_of (main H0 bytes0 draws0 (Some (js ''1,2,3'')) [js ''0'']) = Some DiceSelection
   \<and> field phase_of (main H0 bytes0 draws0 (Some (js ''1,2,3'')) [js ''0'', js ''1abc''])
     = Some RollExchange
   \<and> field userDice (main H0 bytes0 draws0 (Some (js ''1,2,3'')) [js ''0'', js ''1abc''])
     = Some (Some \<lparr>values' = [1, 1, 6, 6, 8, 8]\<rparr>)
   \<and> field diceSet (main H0 bytes0 draws0 (Some (js ''1,2,3'')) [js ''0'', js ''1abc''])
     = Some (Some [\<lparr>values' = [2, 2, 4, 4, 9, 9]\<rparr>, \<lparr>values' = [3, 3, 5, 5, 7, 7]\<rparr>])
   \<and> field userDice (main H0 bytes0 draws0 (Some (js ''1,2,3'')) [js ''0'', js ''0.5''])
     = Some (Some \<lparr>values' = [2, 2, 4, 4, 9, 9]\<rparr>)
   \<and> field userDice (main H0 bytes0 draws0 (Some (js ''1,2,3'')) [js ''0'', js ''1,2''])
     = Some (Some \<lparr>values' = [1, 1, 6, 6, 8, 8]\<rparr>)"
proof -
  have n: "js ''1abc'' \<noteq> js ''X''" "js ''1abc'' \<noteq> js ''x''"
    "js ''0.5'' \<noteq> js ''X''" "js ''0.5'' \<noteq> js ''x''"
    "js ''1,2'' \<noteq> js ''X''" "js ''1,2'' \<noteq> js ''x''"
    by (simp_all add: js_def)
  have p: "parseInt (js ''1abc'') = Fin (of_nat 1)" "parseInt (js ''0.5'') = Fin (of_nat 0)"
    "parseInt (js ''1,2'') = Fin (of_nat 1)"
    by (simp_all add: parseInt_examples)
  from run_guess [of H0 bytes0 draws0]
  have "field phase_of (main H0 bytes0 draws0 (Some (js ''1,2,3'')) [js ''0'']) = Some DiceSelection"
    by (auto simp: field_def phase_of_def)
  moreover from run_choice_any [OF n(1,2) p(1), of H0 bytes0 draws0]
  have "field phase_of (main H0 bytes0 draws0 (Some (js ''1,2,3'')) [js ''0'', js ''1abc''])
     = Some RollExchange"
    "field userDice (main H0 bytes0 draws0 (Some (js ''1,2,3'')) [js ''0'', js ''1abc''])
     = Some (Some \<lparr>values' = [1, 1, 6, 6, 8, 8]\<rparr>)"
    "field diceSet (main H0 bytes0 draws0 (Some (js ''1,2,3'')) [js ''0'', js ''1abc''])
     = Some (Some [\<lparr>values' = [2, 2, 4, 4, 9, 9]\<rparr>, \<lparr>values' = [3, 3, 5, 5, 7, 7]\<rparr>])"
    by (auto simp: field_def preset_def)
  moreover from run_choice_any [OF n(3,4) p(2), of H0 bytes0 draws0]
  have "field userDice (main H0 bytes0 draws0 (Some (js ''1,2,3'')) [js ''0'', js ''0.5''])
     = Some (Some \<lparr>values' = [2, 2, 4, 4, 9, 9]\<rparr>)"
    by (auto simp: field_def preset_def)
  moreover from run_choice_any [OF n(5,6) p(3), of H0 bytes0 draws0]
  have "field userDice (main H0 bytes0 draws0 (Some (js ''1,2,3'')) [js ''0'', js ''1,2''])
     = Some (Some \<lparr>values' = [1, 1, 6, 6, 8, 8]\<rparr>)"
    by (auto simp: field_def preset_def)
  ultimately show ?thesis by blast
qed

end
